theory Spec2Isabelle
  imports Main "HOL-Library.Word" "HOL-Library.Signed_Division"
begin

unbundle bit_operations_syntax

section \<open>Basic types\<close>

text \<open>
  Go's \<open>byte\<close> is an 8-bit word, \<open>int64\<close> and \<open>uint64\<close> are 64-bit words (read with
  \<open>sint\<close> and \<open>unat\<close>). Go's \<open>int\<close> indices and lengths of slices are natural numbers;
  the \<open>int\<close> argument of \<open>GetVvcNalUnitType\<close> is an integer, on which arithmetic shift
  and two's-complement masking are \<open>drop_bit\<close> and \<open>AND\<close>.
\<close>

type_synonym byte = "8 word"
type_synonym int64 = "64 word"
type_synonym uint64 = "64 word"

text \<open>Run-time panics of the Go code, as values.\<close>

datatype error = IndexOutOfRange | SliceBounds | NilPointer

section \<open>h266.go: NAL unit classification\<close>

definition VvcNalUnitType :: "string list" where
  "VvcNalUnitType =
    [''trail_nvc'', ''stsa_nvc'', ''radl_nvc'', ''rasl_nvc'',
     ''rsv_vcl_4'', ''rsv_vcl_5'', ''rsv_vcl_6'',
     ''idr_w_radl'', ''idr_n_lp'', ''cra_nut'', ''gdr_nut'', ''rsv_irap_11'',
     ''opi_nut'', ''dci_nut'', ''vps_nut'', ''sps_nut'', ''pps_nut'',
     ''prefix_aps_nut'', ''suffix_aps_nut'', ''ph_nut'', ''aud_nut'',
     ''eob_nut'', ''eos_nut'', ''prefix_sei_nut'', ''suffix_sei_nut'', ''fd_nut'',
     ''rsv_nvcl_26'', ''rsv_nvcl_27'',
     ''unspec_28'', ''unspec_29'', ''unspec_30'', ''unspec_31'']"

text \<open>\<open>nalType := (b >> 3) & 0x1F\<close>, then the bounds-checked table lookup.\<close>

definition nalType :: "int \<Rightarrow> int" where
  "nalType b = (drop_bit 3 b) AND 0x1F"

definition GetVvcNalUnitType :: "int \<Rightarrow> string" where
  "GetVvcNalUnitType b =
     (if nalType b < int (length VvcNalUnitType)
      then VvcNalUnitType ! nat (nalType b)
      else ''unknown'')"

definition startcode :: "byte list" where
  "startcode = [0, 0, 1]"

text \<open>
  The scanning loop of \<open>ParseVvcNalUnits\<close>, with the loop variables \<open>pos\<close> and \<open>nals\<close>
  as arguments. \<open>data[pos:pos+startlen]\<close> is in range under the loop guard, so it is
  \<open>take 3 (drop pos data)\<close>.
\<close>

function ParseVvcNalUnits_loop :: "byte list \<Rightarrow> nat \<Rightarrow> string list \<Rightarrow> string list" where
  "ParseVvcNalUnits_loop data pos nals =
     (if pos + 5 < length data then
        (if take (length startcode) (drop pos data) = startcode then
           (if (pos + length startcode) + 1 < length data then
              ParseVvcNalUnits_loop data ((pos + length startcode) + 1)
                (nals @ [GetVvcNalUnitType (uint (data ! ((pos + length startcode) + 1)))])
            else
              ParseVvcNalUnits_loop data ((pos + length startcode) + 1) nals)
         else ParseVvcNalUnits_loop data (pos + 1) nals)
      else nals)"
  by pat_completeness auto
termination
  by (relation "measure (\<lambda>(data, pos, nals). length data - pos)") auto

declare ParseVvcNalUnits_loop.simps [simp del]

definition ParseVvcNalUnits :: "byte list \<Rightarrow> string list" where
  "ParseVvcNalUnits data = ParseVvcNalUnits_loop data 0 []"


text \<open>
  The words of the specification about the scan: an occurrence of the marker
  \<open>00 00 01\<close> at offset \<open>p\<close>, the offsets of all occurrences in increasing order, and
  an occurrence followed by at least \<open>k\<close> bytes.
\<close>

definition marker_at :: "byte list \<Rightarrow> nat \<Rightarrow> bool" where
  "marker_at data p = (take 3 (drop p data) = startcode)"

definition marker_positions :: "byte list \<Rightarrow> nat list" where
  "marker_positions data = filter (marker_at data) [0..<length data]"

definition followed_by :: "nat \<Rightarrow> byte list \<Rightarrow> nat \<Rightarrow> bool" where
  "followed_by k data p = (p + 3 + k \<le> length data)"

definition adjacent_marker :: "byte list \<Rightarrow> nat \<Rightarrow> bool" where
  "adjacent_marker data p = marker_at data (p + 3)"

text \<open>
  The name the specification gives to the occurrence at \<open>p\<close>: the table entry at the
  index taken from the second byte after the marker.
\<close>

definition nal_of :: "byte list \<Rightarrow> nat \<Rightarrow> string" where
  "nal_of data p = VvcNalUnitType ! nat (nalType (uint (data ! (p + 4))))"

section \<open>Packets and shared record state\<close>

text \<open>
  \<open>PesPkt\<close>, \<open>TsPkt\<close>, \<open>IFrameInfo\<close> and \<open>BaseRecord\<close> are declared in files of the
  package that are not among the sources; their fields are the ones the two analyzers
  read and write. The fields of \<open>TsPkt\<close> carry the prefix \<open>ts\<close>, those of \<open>IFrameInfo\<close>
  the prefix \<open>i\<close> and those of \<open>NalInfo\<close> and \<open>MhasPacketInfo\<close> the prefixes \<open>ni\<close> and
  \<open>mi\<close>, since record fields share one name space.
\<close>

record PesPkt =
  Pos :: int64
  Pts :: int64
  Dts :: int64
  Pcr :: int64
  Size :: int64
  Data :: "byte list"

text \<open>The zero value \<open>PesPkt{}\<close>.\<close>

definition new_PesPkt :: PesPkt where
  "new_PesPkt = \<lparr>Pos = 0, Pts = 0, Dts = 0, Pcr = 0, Size = 0, Data = []\<rparr>"

record TsPkt =
  tsPos :: int64
  PUSI :: int
  tsData :: "byte list"

record IFrameInfo =
  iPos :: int64
  iPts :: int64
  Key :: bool

text \<open>
  \<open>BaseRecord\<close>: the latest clock sample, the PID, and the log of random-access events
  that \<open>LogIFrame\<close> writes.
\<close>

record BaseRecord =
  PcrTime :: int64
  Pid :: int
  IFrames :: "IFrameInfo list"

text \<open>
  Modelled from the spec: \<open>BaseRecord.LogIFrame\<close> is not among the sources. The
  specification has it record one random-access event, logged immediately; the log is
  the list \<open>IFrames\<close>, in the order of the calls.
\<close>

definition LogIFrame :: "IFrameInfo \<Rightarrow> 'a BaseRecord_scheme \<Rightarrow> 'a BaseRecord_scheme" where
  "LogIFrame i s = s\<lparr>IFrames := IFrames s @ [i]\<rparr>"

text \<open>
  Modelled from the spec: \<open>PesPkt.Read\<close> is not among the sources. The specification
  gives its interface: from bytes that begin with the marker and are at least 19 long
  it yields the header length, \<open>Pts\<close> and \<open>Dts\<close>. The parser itself is a parameter
  \<open>hp\<close> of the model; \<open>Read\<close> stores the two timestamps in the packet and returns the
  header length.
\<close>

type_synonym pes_header_parser = "byte list \<Rightarrow> nat \<times> int64 \<times> int64"

definition PesPkt_Read :: "pes_header_parser \<Rightarrow> byte list \<Rightarrow> PesPkt \<Rightarrow> nat \<times> PesPkt" where
  "PesPkt_Read hp d p = (case hp d of (hlen, pts, dts) \<Rightarrow> (hlen, p\<lparr>Pts := pts, Dts := dts\<rparr>))"

text \<open>
  One instance of the parameter, to run the model on concrete packets: every header
  is nine bytes long and carries \<open>Pts = 1000\<close> and no \<open>Dts\<close>.
\<close>

definition fixed_header_parser :: pes_header_parser where
  "fixed_header_parser d = (9, 1000, 0)"

text \<open>
  The fields that \<open>H266Record\<close> and \<open>MpeghAudioRecord\<close> both declare (\<open>curpkt\<close>, \<open>Pkts\<close>,
  \<open>WorkaroundPESFlag\<close>, \<open>WorkaroundPES\<close>) are one record, which each analyzer extends
  with its own fields. A \<open>nil\<close> pointer is \<open>None\<close>; a \<open>nil\<close> slice is the empty list.
\<close>

record PesRecord = BaseRecord +
  curpkt :: "PesPkt option"
  Pkts :: "PesPkt list"
  WorkaroundPESFlag :: bool
  WorkaroundPES :: "byte list"

record NalInfo =
  niPos :: int64
  niPts :: int64
  Nals :: "string list"

record H266Record = PesRecord +
  NalInfos :: "NalInfo list"

definition minVvcPesHeaderLen :: nat where
  "minVvcPesHeaderLen = 19"

section \<open>PES reassembly (the part of \<open>Process\<close> that both analyzers share)\<close>

text \<open>
  Both \<open>Process\<close> methods continue in the same way once the outstanding packet has been
  finalized: the text of \<open>H266Record.Process\<close> from line 119 on and the text of
  \<open>MpeghAudioRecord.Process\<close> from line 118 on differ only in the name of the
  header-length constant. The three steps below are that text, with \<open>pkt.Data\<close>
  passed along as a value since the method overwrites it. \<open>minlen\<close> is the analyzer's
  header-length constant. \<open>LogAdaptFieldPrivData\<close> is an external hook and is left
  out.

  \<open>Process_start\<close>: lines 119-135 of h266.go (118-134 of the MPEG-H source), under
  \<open>pkt.PUSI == 1\<close>. The slice \<open>pkt.Data[hlen:]\<close> panics when \<open>hlen\<close> exceeds the
  length.
\<close>

definition Process_start ::
  "pes_header_parser \<Rightarrow> nat \<Rightarrow> 'a PesRecord_scheme \<Rightarrow> TsPkt
     \<Rightarrow> error + ('a PesRecord_scheme \<times> byte list)" where
  "Process_start hp minlen s pkt =
     (let c = new_PesPkt\<lparr>Pos := tsPos pkt, Pcr := PcrTime s\<rparr> in
      if length (tsData pkt) \<ge> minlen then
        (if take 3 (tsData pkt) = startcode then
           (case PesPkt_Read hp (tsData pkt) c of (hlen, c') \<Rightarrow>
              if hlen \<le> length (tsData pkt)
              then Inr (s\<lparr>curpkt := Some c'\<rparr>, drop hlen (tsData pkt))
              else Inl SliceBounds)
         else Inr (s\<lparr>curpkt := Some c\<rparr>, tsData pkt))
      else Inr (s\<lparr>curpkt := Some c, WorkaroundPESFlag := True, WorkaroundPES := []\<rparr>,
                tsData pkt))"

text \<open>\<open>Process_workaround\<close>: lines 138-151 of h266.go (137-150 of the MPEG-H source).\<close>

definition Process_workaround ::
  "pes_header_parser \<Rightarrow> nat \<Rightarrow> 'a PesRecord_scheme \<Rightarrow> byte list
     \<Rightarrow> error + ('a PesRecord_scheme \<times> byte list)" where
  "Process_workaround hp minlen s d =
     (if WorkaroundPESFlag s then
        (let s1 = s\<lparr>WorkaroundPES := WorkaroundPES s @ d\<rparr> in
         if length (WorkaroundPES s1) \<ge> minlen then
           (if take 3 (WorkaroundPES s1) = startcode then
              (case curpkt s1 of
                 None \<Rightarrow> Inl NilPointer
               | Some c \<Rightarrow>
                  (case PesPkt_Read hp (WorkaroundPES s1) c of (hlen, c') \<Rightarrow>
                     if hlen \<le> length (WorkaroundPES s1)
                     then Inr (s1\<lparr>curpkt := Some c', WorkaroundPESFlag := False\<rparr>,
                               drop hlen (WorkaroundPES s1))
                     else Inl SliceBounds))
            else Inr (s1, []))
         else Inr (s1, []))
      else Inr (s, d))"

text \<open>\<open>Process_accumulate\<close>: lines 153-156 of h266.go (152-155 of the MPEG-H source).\<close>

definition Process_accumulate :: "'a PesRecord_scheme \<Rightarrow> byte list \<Rightarrow> 'a PesRecord_scheme" where
  "Process_accumulate s d =
     (case curpkt s of
        None \<Rightarrow> s
      | Some c \<Rightarrow>
          s\<lparr>curpkt := Some (c\<lparr>Size := Size c + of_nat (length d), Data := Data c @ d\<rparr>)\<rparr>)"

section \<open>h266.go: the record engine\<close>

definition is_rap_nal :: "string \<Rightarrow> bool" where
  "is_rap_nal nal = (nal = ''idr_w_radl'' \<or> nal = ''idr_n_lp'' \<or> nal = ''cra_nut'')"

text \<open>The \<open>for _, nal := range nals\<close> loop of \<open>Process\<close> (lines 102-111).\<close>

primrec log_rap_nals :: "PesPkt \<Rightarrow> string list \<Rightarrow> H266Record \<Rightarrow> H266Record" where
  "log_rap_nals c [] s = s"
| "log_rap_nals c (nal # nals) s =
     log_rap_nals c nals
       (if is_rap_nal nal
        then LogIFrame \<lparr>iPos = Pos c, iPts = Pts c, Key = True\<rparr> s
        else s)"

text \<open>Lines 100-118: what \<open>Process\<close> does with the outstanding packet on \<open>PUSI\<close>.\<close>

definition H266Record_finalize :: "H266Record \<Rightarrow> H266Record" where
  "H266Record_finalize s =
     (case curpkt s of
        None \<Rightarrow> s
      | Some c \<Rightarrow>
          (let nals = ParseVvcNalUnits (Data c);
               s1 = log_rap_nals c nals s
           in s1\<lparr>NalInfos := NalInfos s1 @ [\<lparr>niPos = Pos c, niPts = Pts c, Nals = nals\<rparr>],
                 Pkts := Pkts s1 @ [c]\<rparr>))"

definition H266Record_Process ::
  "pes_header_parser \<Rightarrow> H266Record \<Rightarrow> TsPkt \<Rightarrow> error + H266Record" where
  "H266Record_Process hp s pkt =
     (case (if PUSI pkt = 1
            then Process_start hp minVvcPesHeaderLen (H266Record_finalize s) pkt
            else Inr (s, tsData pkt)) of
        Inl e \<Rightarrow> Inl e
      | Inr (s1, d1) \<Rightarrow>
          (case Process_workaround hp minVvcPesHeaderLen s1 d1 of
             Inl e \<Rightarrow> Inl e
           | Inr (s2, d2) \<Rightarrow> Inr (Process_accumulate s2 d2)))"

definition H266Record_Flush :: "H266Record \<Rightarrow> H266Record" where
  "H266Record_Flush s =
     (case curpkt s of
        None \<Rightarrow> s
      | Some c \<Rightarrow>
          (let nals = ParseVvcNalUnits (Data c)
           in s\<lparr>NalInfos := NalInfos s @ [\<lparr>niPos = Pos c, niPts = Pts c, Nals = nals\<rparr>],
                Pkts := Pkts s @ [c]\<rparr>))"


section \<open>Report formatting\<close>

text \<open>
  \<open>strconv.FormatInt(x, 10)\<close>, \<open>strconv.Itoa\<close>, \<open>strconv.FormatBool\<close> and
  \<open>strings.Join\<close> of the Go library. \<open>digits10\<close> writes a number that is not
  negative in decimal.
\<close>

function digits10 :: "int \<Rightarrow> string" where
  "digits10 n =
     (if n < 10 then [''0123456789'' ! nat n]
      else digits10 (n div 10) @ [''0123456789'' ! nat (n mod 10)])"
  by pat_completeness auto
termination
proof (relation "measure nat")
  show "wf (measure nat)" by simp
next
  fix n :: int
  assume "\<not> n < 10"
  then have "0 < n" "n div 10 < n" "0 \<le> n div 10"
    by (simp_all add: int_div_less_self pos_imp_zdiv_nonneg_iff)
  then show "(n div 10, n) \<in> measure nat" by simp
qed

declare digits10.simps [simp del]

definition FormatInt :: "int \<Rightarrow> string" where
  "FormatInt i = (if i < 0 then ''-'' @ digits10 (- i) else digits10 i)"

definition FormatBool :: "bool \<Rightarrow> string" where
  "FormatBool b = (if b then ''true'' else ''false'')"

fun Join :: "string list \<Rightarrow> string \<Rightarrow> string" where
  "Join [] sep = []"
| "Join [x] sep = x"
| "Join (x # y # ys) sep = x @ sep @ Join (y # ys) sep"

text \<open>
  Go's \<open>/\<close> on \<open>int64\<close> truncates towards zero: \<open>sdiv\<close> on the signed values.
\<close>

definition int64_div :: "int64 \<Rightarrow> int64 \<Rightarrow> int64" where
  "int64_div a b = word_of_int (sint a sdiv sint b)"

text \<open>
  The body of the loop \<open>for _, p := range s.Pkts\<close> of both \<open>Report\<close> methods
  (h266.go lines 185-200, and the same lines of the MPEG-H file): one line of
  \<open><PID>.csv\<close>.
\<close>

definition pes_row :: "PesPkt \<Rightarrow> string" where
  "pes_row p =
     (let pcr = int64_div (Pcr p) 300;
          dts = (if Dts p = 0 then Pts p else Dts p);
          cols = [FormatInt (sint (Pos p)),
                  FormatInt (sint (Size p)),
                  FormatInt (sint pcr),
                  FormatInt (sint (Pts p)),
                  FormatInt (sint dts),
                  FormatInt (sint (dts - pcr))]
      in Join cols '', '')"

definition nal_row :: "NalInfo \<Rightarrow> string" where
  "nal_row nalInfo =
     Join [FormatInt (sint (niPos nalInfo)),
           FormatInt (sint (niPts nalInfo)),
           Join (Nals nalInfo) '', ''] '', ''"

text \<open>
  A report is the list of the files written, each with its name inside the directory
  \<open>root\<close> and its lines. Creating a file is taken to succeed (the method panics
  otherwise).
\<close>

type_synonym report = "(string \<times> string list) list"

definition H266Record_Report :: "H266Record \<Rightarrow> report" where
  "H266Record_Report s =
     [(FormatInt (Pid s) @ ''.csv'',
       ''Pos, Size, PCR, PTS, DTS, (DTS-PCR)'' # map pes_row (Pkts s)),
      (FormatInt (Pid s) @ ''-nal'' @ ''.csv'',
       ''Pos, PTS, NAL units'' # map nal_row (NalInfos s))]"

section \<open>The bit reader\<close>

text \<open>
  Modelled from the spec: the type \<open>Reader\<close> with its methods \<open>ReadBit64\<close> and
  \<open>SkipByte\<close> is not among the sources. The specification describes a bit-addressable
  stream with a byte and a bit cursor: \<open>Base\<close> is the byte offset, \<open>Off\<close> the bit
  offset inside that byte, bits are taken from the most significant one. Reading at a
  byte offset outside the data is the index panic of Go. The field \<open>Data\<close> of the
  reader is named \<open>RData\<close> here.
\<close>

record Reader =
  RData :: "byte list"
  Base :: nat
  Off :: nat

definition ReadBit :: "Reader \<Rightarrow> error + (bool \<times> Reader)" where
  "ReadBit r =
     (if Base r < length (RData r)
      then Inr (bit (RData r ! Base r) (7 - Off r),
                if Off r + 1 \<ge> 8 then r\<lparr>Base := Base r + 1, Off := 0\<rparr>
                else r\<lparr>Off := Off r + 1\<rparr>)
      else Inl IndexOutOfRange)"

fun ReadBit64_loop :: "nat \<Rightarrow> uint64 \<Rightarrow> Reader \<Rightarrow> error + (uint64 \<times> Reader)" where
  "ReadBit64_loop 0 v r = Inr (v, r)"
| "ReadBit64_loop (Suc n) v r =
     (case ReadBit r of
        Inl e \<Rightarrow> Inl e
      | Inr (b, r') \<Rightarrow> ReadBit64_loop n (push_bit 1 v OR of_bool b) r')"

definition ReadBit64 :: "Reader \<Rightarrow> nat \<Rightarrow> error + (uint64 \<times> Reader)" where
  "ReadBit64 r n = ReadBit64_loop n 0 r"

definition SkipByte :: "Reader \<Rightarrow> nat \<Rightarrow> Reader" where
  "SkipByte r n = r\<lparr>Base := Base r + n\<rparr>"

section \<open>MPEG-H: escaped values and MHAS packets\<close>

definition MpeghAudioPacketType :: "string list" where
  "MpeghAudioPacketType =
    [''PACTYP_FILLDATA'', ''PACTYP_MPEGH3DACFG'', ''PACTYP_MPEGH3DAFRAME'',
     ''PACTYP_AUDIOSCENEINFO'', ''PACTYP_SYNC'', ''PACTYP_SYNCGAP'', ''PACTYP_MARKER'',
     ''PACTYP_CRC16'', ''PACTYP_CRC32'', ''PACTYP_DESCRIPTOR'', ''PACTYP_USERINTERACTION'',
     ''PACTYP_LOUDNESS_DRC'', ''PACTYP_BUFFERINFO'', ''PACTYP_GLOBAL_CRC16'',
     ''PACTYP_GLOBAL_CRC32'', ''PACTYP_AUDIOTRUNCATION'', ''PACTYP_GENDATA'']"

definition typeMap :: "int \<rightharpoonup> string" where
  "typeMap = map_of
     [(0, MpeghAudioPacketType ! 0), (1, MpeghAudioPacketType ! 1),
      (2, MpeghAudioPacketType ! 2), (3, MpeghAudioPacketType ! 3),
      (6, MpeghAudioPacketType ! 4), (7, MpeghAudioPacketType ! 5),
      (8, MpeghAudioPacketType ! 6), (9, MpeghAudioPacketType ! 7),
      (10, MpeghAudioPacketType ! 8), (11, MpeghAudioPacketType ! 9),
      (12, MpeghAudioPacketType ! 10), (13, MpeghAudioPacketType ! 11),
      (14, MpeghAudioPacketType ! 12), (15, MpeghAudioPacketType ! 13),
      (16, MpeghAudioPacketType ! 14), (17, MpeghAudioPacketType ! 15),
      (18, MpeghAudioPacketType ! 16)]"

definition GetMpeghAudioPacketType :: "int \<Rightarrow> string" where
  "GetMpeghAudioPacketType packetType =
     (case typeMap packetType of
        Some ptype \<Rightarrow> ptype
      | None \<Rightarrow> ''unknown_'' @ FormatInt packetType)"

text \<open>
  \<open>maxVal := uint64((1 << nBits) - 1)\<close> on 64-bit \<open>int\<close>: the shift and the
  subtraction wrap, which is what they do on a 64-bit word.
\<close>

definition maxVal :: "nat \<Rightarrow> uint64" where
  "maxVal nBits = push_bit nBits 1 - 1"

definition parseEscapedValue :: "Reader \<Rightarrow> nat \<Rightarrow> nat \<Rightarrow> nat \<Rightarrow> error + (uint64 \<times> Reader)" where
  "parseEscapedValue r nBits mBits kBits =
     (case ReadBit64 r nBits of
        Inl e \<Rightarrow> Inl e
      | Inr (val, r1) \<Rightarrow>
          if val = maxVal nBits then
            (case ReadBit64 r1 mBits of
               Inl e \<Rightarrow> Inl e
             | Inr (val2, r2) \<Rightarrow>
                 if val2 = maxVal mBits then
                   (case ReadBit64 r2 kBits of
                      Inl e \<Rightarrow> Inl e
                    | Inr (val3, r3) \<Rightarrow> Inr (val + val2 + val3, r3))
                 else Inr (val + val2, r2))
          else Inr (val, r1))"

text \<open>
  The three header fields of one MHAS packet (lines 198-205): the packet type, the
  label (read and dropped) and the packet length, with the reader after them.
\<close>

definition mhas_header :: "Reader \<Rightarrow> error + (uint64 \<times> uint64 \<times> Reader)" where
  "mhas_header r =
     (case parseEscapedValue r 3 8 8 of
        Inl e \<Rightarrow> Inl e
      | Inr (packetType, r1) \<Rightarrow>
          (case parseEscapedValue r1 2 8 32 of
             Inl e \<Rightarrow> Inl e
           | Inr (packetLabel, r2) \<Rightarrow>
               (case parseEscapedValue r2 11 24 24 of
                  Inl e \<Rightarrow> Inl e
                | Inr (packetLength, r3) \<Rightarrow> Inr (packetType, packetLength, r3))))"

text \<open>
  One pass through the body of the loop (lines 195-225), entered with at least two
  bytes left. \<open>uint64(len(data)-r.Base)\<close> is the conversion of a signed difference.
\<close>

definition mhas_packet ::
  "byte list \<Rightarrow> Reader \<Rightarrow> string list \<Rightarrow> bool \<Rightarrow> error + (Reader \<times> string list \<times> bool)" where
  "mhas_packet data r packetTypes isRap =
     (case mhas_header r of
        Inl e \<Rightarrow> Inl e
      | Inr (packetType, packetLength, r1) \<Rightarrow>
          if packetLength > word_of_int (int (length data) - int (Base r1))
          then Inr (r1\<lparr>Base := Base r + 1, Off := Off r\<rparr>, packetTypes, isRap)
          else Inr (SkipByte r1 (unat packetLength),
                    packetTypes @ [GetMpeghAudioPacketType (uint packetType)],
                    isRap \<or> packetType = 1 \<or> packetType = 6))"


text \<open>
  The position of the cursor in bits. Every read of one bit moves it by one, so the
  header of a packet, which is at least 16 bits long, moves the byte offset by at least
  two. This is what makes the loop below terminate.
\<close>

definition bitpos :: "Reader \<Rightarrow> nat" where
  "bitpos r = 8 * Base r + min (Off r) 7"

lemma ReadBit_bitpos:
  "ReadBit r = Inr (b, r') \<Longrightarrow> bitpos r' = bitpos r + 1 \<and> RData r' = RData r"
  by (auto simp: ReadBit_def bitpos_def split: if_splits)

lemma ReadBit64_loop_bitpos:
  "ReadBit64_loop n v r = Inr (v', r') \<Longrightarrow> bitpos r' = bitpos r + n \<and> RData r' = RData r"
proof (induction n arbitrary: v r)
  case 0
  then show ?case by simp
next
  case (Suc n)
  then show ?case
    by (auto split: sum.splits dest!: ReadBit_bitpos)
qed

lemma ReadBit64_bitpos:
  "ReadBit64 r n = Inr (v, r') \<Longrightarrow> bitpos r' = bitpos r + n \<and> RData r' = RData r"
  unfolding ReadBit64_def by (rule ReadBit64_loop_bitpos)

lemma parseEscapedValue_bitpos:
  "parseEscapedValue r n m k = Inr (v, r') \<Longrightarrow> bitpos r + n \<le> bitpos r' \<and> RData r' = RData r"
  unfolding parseEscapedValue_def
  by (auto split: sum.splits if_splits dest!: ReadBit64_bitpos)

lemma mhas_header_bitpos:
  "mhas_header r = Inr (t, l, r') \<Longrightarrow> bitpos r + 16 \<le> bitpos r' \<and> RData r' = RData r"
  unfolding mhas_header_def
  by (auto split: sum.splits dest!: parseEscapedValue_bitpos)

lemma mhas_header_Base:
  "mhas_header r = Inr (t, l, r') \<Longrightarrow> Base r + 2 \<le> Base r'"
  by (drule mhas_header_bitpos) (auto simp: bitpos_def min_def split: if_splits)

lemma mhas_packet_Base:
  "mhas_packet data r ts b = Inr (r', ts', b') \<Longrightarrow> Base r < Base r'"
  unfolding mhas_packet_def
  by (auto simp: SkipByte_def split: sum.splits if_splits dest!: mhas_header_Base)

text \<open>The loop \<open>for r.Base < len(data)\<close> of \<open>parseMhasPackets\<close> (lines 189-226).\<close>

function mhas_loop ::
  "byte list \<Rightarrow> Reader \<Rightarrow> string list \<Rightarrow> bool \<Rightarrow> error + (string list \<times> bool)" where
  "mhas_loop data r packetTypes isRap =
     (if Base r < length data then
        (if Base r + 2 > length data then Inr (packetTypes, isRap)
         else
           (case mhas_packet data r packetTypes isRap of
              Inl e \<Rightarrow> Inl e
            | Inr (r', packetTypes', isRap') \<Rightarrow> mhas_loop data r' packetTypes' isRap'))
      else Inr (packetTypes, isRap))"
  by pat_completeness auto
termination
  by (relation "measure (\<lambda>(data, r, packetTypes, isRap). length data - Base r)")
     (auto dest!: mhas_packet_Base)

declare mhas_loop.simps [simp del]

record MhasPacketInfo =
  miPos :: int64
  miPts :: int64
  PacketTypes :: "string list"

text \<open>\<open>RapLog\<close> is the file of random-access events: \<open>None\<close> until it is created.\<close>

record MpeghAudioRecord = PesRecord +
  MhasPackets :: "MhasPacketInfo list"
  RapFrames :: "int64 list"
  RapLog :: "string list option"

definition minMpeghAudioPesHeaderLen :: nat where
  "minMpeghAudioPesHeaderLen = 19"

text \<open>The reader \<open>&Reader{Data: data}\<close>, placed at a byte offset.\<close>

definition reader_at :: "byte list \<Rightarrow> nat \<Rightarrow> Reader" where
  "reader_at data p = \<lparr>RData = data, Base = p, Off = 0\<rparr>"

text \<open>
  The header decoded at byte offset \<open>q\<close> declares a length that exceeds the bytes left
  after it: the condition of the resynchronization branch (line 208).
\<close>

definition oversized_at :: "byte list \<Rightarrow> nat \<Rightarrow> bool" where
  "oversized_at data q =
     (case mhas_header (reader_at data q) of
        Inl e \<Rightarrow> False
      | Inr (t, l, r1) \<Rightarrow> l > word_of_int (int (length data) - int (Base r1)))"

definition parseMhasPackets ::
  "MpeghAudioRecord \<Rightarrow> byte list \<Rightarrow> int64 \<Rightarrow> int64 \<Rightarrow> error + (MpeghAudioRecord \<times> bool)" where
  "parseMhasPackets s data pos pts =
     (case mhas_loop data (reader_at data 0) [] False of
        Inl e \<Rightarrow> Inl e
      | Inr (packetTypes, isRap) \<Rightarrow>
          Inr (if length packetTypes > 0
               then s\<lparr>MhasPackets := MhasPackets s @
                         [\<lparr>miPos = pos, miPts = pts, PacketTypes = packetTypes\<rparr>]\<rparr>
               else s,
               isRap))"

definition LogRap :: "IFrameInfo \<Rightarrow> MpeghAudioRecord \<Rightarrow> MpeghAudioRecord" where
  "LogRap i s =
     (let s1 = (if RapLog s = None then s\<lparr>RapLog := Some [''Pos, PTS, Key'']\<rparr> else s);
          cols = [FormatInt (sint (iPos i)), FormatInt (sint (iPts i)), FormatBool (Key i)]
      in s1\<lparr>RapLog := map_option (\<lambda>f. f @ [Join cols '', '']) (RapLog s1)\<rparr>)"

text \<open>Lines 105-117: what \<open>Process\<close> does with the outstanding packet on \<open>PUSI\<close>.\<close>

definition MpeghAudioRecord_finalize :: "MpeghAudioRecord \<Rightarrow> error + MpeghAudioRecord" where
  "MpeghAudioRecord_finalize s =
     (case curpkt s of
        None \<Rightarrow> Inr s
      | Some c \<Rightarrow>
          (case parseMhasPackets s (Data c) (Pos c) (Pts c) of
             Inl e \<Rightarrow> Inl e
           | Inr (s1, isRap) \<Rightarrow>
               (let s2 = (if isRap
                          then (let s' = LogRap \<lparr>iPos = Pos c, iPts = Pts c, Key = True\<rparr> s1
                                in s'\<lparr>RapFrames := RapFrames s' @ [Pos c]\<rparr>)
                          else s1)
                in Inr (s2\<lparr>Pkts := Pkts s2 @ [c]\<rparr>))))"

definition MpeghAudioRecord_Process ::
  "pes_header_parser \<Rightarrow> MpeghAudioRecord \<Rightarrow> TsPkt \<Rightarrow> error + MpeghAudioRecord" where
  "MpeghAudioRecord_Process hp s pkt =
     (case (if PUSI pkt = 1
            then (case MpeghAudioRecord_finalize s of
                    Inl e \<Rightarrow> Inl e
                  | Inr s0 \<Rightarrow> Process_start hp minMpeghAudioPesHeaderLen s0 pkt)
            else Inr (s, tsData pkt)) of
        Inl e \<Rightarrow> Inl e
      | Inr (s1, d1) \<Rightarrow>
          (case Process_workaround hp minMpeghAudioPesHeaderLen s1 d1 of
             Inl e \<Rightarrow> Inl e
           | Inr (s2, d2) \<Rightarrow> Inr (Process_accumulate s2 d2)))"

definition MpeghAudioRecord_Flush :: "MpeghAudioRecord \<Rightarrow> error + MpeghAudioRecord" where
  "MpeghAudioRecord_Flush s =
     (case curpkt s of
        None \<Rightarrow> Inr s
      | Some c \<Rightarrow>
          (case parseMhasPackets s (Data c) (Pos c) (Pts c) of
             Inl e \<Rightarrow> Inl e
           | Inr (s1, isRap) \<Rightarrow> Inr (s1\<lparr>Pkts := Pkts s1 @ [c]\<rparr>)))"

definition mhas_row :: "MhasPacketInfo \<Rightarrow> string" where
  "mhas_row mhasInfo =
     Join [FormatInt (sint (miPos mhasInfo)),
           FormatInt (sint (miPts mhasInfo)),
           Join (PacketTypes mhasInfo) '', ''] '', ''"

definition MpeghAudioRecord_Report :: "MpeghAudioRecord \<Rightarrow> report" where
  "MpeghAudioRecord_Report s =
     [(FormatInt (Pid s) @ ''.csv'',
       ''Pos, Size, PCR, PTS, DTS, (DTS-PCR)'' # map pes_row (Pkts s))] @
     (if length (MhasPackets s) > 0
      then [(FormatInt (Pid s) @ ''-mhas'' @ ''.csv'',
             ''Pos, PTS, MHAS Packet Types'' # map mhas_row (MhasPackets s))]
      else [])"


section \<open>Properties of the NAL analyzer\<close>

lemma nalType_range: "0 \<le> nalType b \<and> nalType b < 32"
  unfolding nalType_def by (simp add: AND_upper2'')

lemma VvcNalUnitType_length: "length VvcNalUnitType = 32"
  by (simp add: VvcNalUnitType_def)

lemma GetVvcNalUnitType_nth: "GetVvcNalUnitType b = VvcNalUnitType ! nat (nalType b)"
  using nalType_range[of b] by (simp add: GetVvcNalUnitType_def VvcNalUnitType_length)

lemma GetVvcNalUnitType_mem: "GetVvcNalUnitType b \<in> set VvcNalUnitType"
  unfolding GetVvcNalUnitType_nth
  using nalType_range[of b] by (intro nth_mem) (auto simp: VvcNalUnitType_length)

lemma unknown_not_named: "''unknown'' \<notin> set VvcNalUnitType"
  by (simp add: VvcNalUnitType_def)

lemma ParseVvcNalUnits_loop_named:
  "set (ParseVvcNalUnits_loop data pos nals) \<subseteq> set nals \<union> set VvcNalUnitType"
proof (induction data pos nals rule: ParseVvcNalUnits_loop.induct)
  case (1 data pos nals)
  show ?case
    apply (subst ParseVvcNalUnits_loop.simps)
    using 1 GetVvcNalUnitType_mem by (auto split: if_splits)
qed

text \<open>
  C9. For every argument \<open>b\<close> the index \<open>(b >> 3) & 0x1F\<close> lies in 0..31 and the table
  has exactly 32 entries, so \<open>GetVvcNalUnitType\<close> returns the table entry at that
  index, never the fallback \<open>unknown\<close>, and every classification that
  \<open>ParseVvcNalUnits\<close> emits is one of the named NAL unit types.
\<close>

theorem GetVvcNalUnitType_always_named:
  "0 \<le> nalType b \<and> nalType b < 32 \<and> length VvcNalUnitType = 32
   \<and> GetVvcNalUnitType b = VvcNalUnitType ! nat (nalType b)
   \<and> GetVvcNalUnitType b \<in> set VvcNalUnitType
   \<and> GetVvcNalUnitType b \<noteq> ''unknown''
   \<and> set (ParseVvcNalUnits data) \<subseteq> set VvcNalUnitType
   \<and> ''unknown'' \<notin> set (ParseVvcNalUnits data)"
proof -
  have sub: "set (ParseVvcNalUnits data) \<subseteq> set VvcNalUnitType"
    using ParseVvcNalUnits_loop_named[of data 0 "[]"] by (simp add: ParseVvcNalUnits_def)
  have ne: "GetVvcNalUnitType b \<noteq> ''unknown''"
    using GetVvcNalUnitType_mem[of b] unknown_not_named by metis
  have nin: "''unknown'' \<notin> set (ParseVvcNalUnits data)"
    using sub unknown_not_named by blast
  show ?thesis
    using nalType_range[of b] VvcNalUnitType_length GetVvcNalUnitType_nth[of b]
      GetVvcNalUnitType_mem[of b] sub ne nin by blast
qed

lemma marker_at_iff:
  "marker_at data p \<longleftrightarrow>
     p + 3 \<le> length data \<and> data ! p = 0 \<and> data ! (p + 1) = 0 \<and> data ! (p + 2) = 1"
proof
  assume m: "marker_at data p"
  then have len: "length (take 3 (drop p data)) = 3"
    by (simp add: marker_at_def startcode_def)
  then have le: "p + 3 \<le> length data" by auto
  from m have "\<forall>i<3. take 3 (drop p data) ! i = startcode ! i"
    by (simp add: marker_at_def)
  then have h: "\<And>i. i < 3 \<Longrightarrow> data ! (p + i) = startcode ! i"
    using le by simp
  have "data ! (p + 0) = startcode ! 0 \<and> data ! (p + 1) = startcode ! 1 \<and> data ! (p + 2) = startcode ! 2"
    using h[of 0] h[of 1] h[of 2] by simp
  then show "p + 3 \<le> length data \<and> data ! p = 0 \<and> data ! (p + 1) = 0 \<and> data ! (p + 2) = 1"
    using le by (simp add: startcode_def)
next
  assume a: "p + 3 \<le> length data \<and> data ! p = 0 \<and> data ! (p + 1) = 0 \<and> data ! (p + 2) = 1"
  have "take 3 (drop p data) = [data ! p, data ! (p + 1), data ! (p + 2)]"
  proof (rule nth_equalityI)
    show "length (take 3 (drop p data)) = length [data ! p, data ! (p + 1), data ! (p + 2)]"
      using a by (simp add: min_def, arith)
  next
    fix i assume "i < length (take 3 (drop p data))"
    then have i: "i < 3" by simp
    then have "i = 0 \<or> i = 1 \<or> i = 2" by arith
    then show "take 3 (drop p data) ! i = [data ! p, data ! (p + 1), data ! (p + 2)] ! i"
      using a by auto
  qed
  then show "marker_at data p" using a by (simp add: marker_at_def startcode_def)
qed

lemma marker_no_overlap:
  "marker_at data p \<Longrightarrow> \<not> marker_at data (p + 1) \<and> \<not> marker_at data (p + 2)"
  by (auto simp: marker_at_iff)

lemma len_startcode: "length startcode = 3"
  by (simp add: startcode_def)

lemma upt_4: "pos + 5 < n \<Longrightarrow> [pos..<n] = pos # (pos + 1) # (pos + 2) # (pos + 3) # [pos + 4..<n]"
proof -
  assume a: "pos + 5 < n"
  have 1: "[pos..<n] = pos # [Suc pos..<n]" by (rule upt_conv_Cons) (use a in arith)
  have 2: "[Suc pos..<n] = Suc pos # [Suc (Suc pos)..<n]" by (rule upt_conv_Cons) (use a in arith)
  have 3: "[Suc (Suc pos)..<n] = Suc (Suc pos) # [Suc (Suc (Suc pos))..<n]"
    by (rule upt_conv_Cons) (use a in arith)
  have 4: "[Suc (Suc (Suc pos))..<n] = Suc (Suc (Suc pos)) # [Suc (Suc (Suc (Suc pos)))..<n]"
    by (rule upt_conv_Cons) (use a in arith)
  have e: "pos + 1 = Suc pos" "pos + 2 = Suc (Suc pos)" "pos + 3 = Suc (Suc (Suc pos))"
    "pos + 4 = Suc (Suc (Suc (Suc pos)))" by simp_all
  show ?thesis unfolding e by (simp only: 1 2 3 4)
qed

lemma scan_markers:
  assumes A1: "\<forall>p. marker_at data p \<longrightarrow> p + 5 < length data"
      and A2: "\<forall>p. marker_at data p \<longrightarrow> \<not> marker_at data (p + 3)"
  shows "ParseVvcNalUnits_loop data pos nals =
           nals @ map (\<lambda>p. GetVvcNalUnitType (uint (data ! (p + 4))))
                      (filter (marker_at data) [pos..<length data])"
  using A1 A2
proof (induction data pos nals rule: ParseVvcNalUnits_loop.induct)
  case (1 data pos nals)
  note A1 = "1.prems"(1) and A2 = "1.prems"(2)
  show ?case
  proof (cases "pos + 5 < length data")
    case False
    have "filter (marker_at data) [pos..<length data] = []"
      using False A1 by (auto simp: filter_empty_conv)
    then show ?thesis
      using False by (subst ParseVvcNalUnits_loop.simps) simp
  next
    case guard: True
    show ?thesis
    proof (cases "marker_at data pos")
      case True
      then have tk: "take (length startcode) (drop pos data) = startcode"
        by (simp add: marker_at_def len_startcode)
      have no: "\<not> marker_at data (pos + 1)" "\<not> marker_at data (pos + 2)" "\<not> marker_at data (pos + 3)"
        using True marker_no_overlap A2 by auto
      have flt: "filter (marker_at data) [pos..<length data] =
                   pos # filter (marker_at data) [pos + 4..<length data]"
        using True no by (simp only: upt_4[OF guard] filter.simps if_True if_False)
      have e4: "pos + length startcode + 1 = pos + 4"
        by (simp add: len_startcode)
      have in2: "pos + length startcode + 1 < length data"
        using guard by (simp add: len_startcode)
      have "ParseVvcNalUnits_loop data pos nals =
              ParseVvcNalUnits_loop data (pos + length startcode + 1)
                (nals @ [GetVvcNalUnitType (uint (data ! (pos + length startcode + 1)))])"
        using guard tk in2 by (subst ParseVvcNalUnits_loop.simps) simp
      also have "\<dots> = (nals @ [GetVvcNalUnitType (uint (data ! (pos + length startcode + 1)))]) @
           map (\<lambda>p. GetVvcNalUnitType (uint (data ! (p + 4))))
               (filter (marker_at data) [pos + length startcode + 1..<length data])"
        using "1.IH"(1)[OF guard tk in2 A1 A2] .
      finally show ?thesis
        unfolding flt e4 by simp
    next
      case False
      then have tk: "take (length startcode) (drop pos data) \<noteq> startcode"
        by (simp add: marker_at_def len_startcode)
      have flt: "filter (marker_at data) [pos..<length data] =
                   filter (marker_at data) [pos + 1..<length data]"
        using False guard by (simp add: upt_conv_Cons)
      have "ParseVvcNalUnits_loop data pos nals = ParseVvcNalUnits_loop data (pos + 1) nals"
        using guard tk by (subst ParseVvcNalUnits_loop.simps) simp
      then show ?thesis
        using "1.IH"(3)[OF guard tk A1 A2] by (simp add: flt)
    qed
  qed
qed

text \<open>
  C2, as stated, fails. A single marker followed by exactly two bytes is never
  reached, because the scan stops as soon as \<open>pos + 5 < len(data)\<close> is false; and
  a marker that begins right after another one is skipped, because a match moves the
  position by four. Both inputs below hold only markers followed by at least two
  bytes, and both give fewer names than markers.
\<close>

theorem ParseVvcNalUnits_count_counterexample:
  "marker_positions [0, 0, 1, 0, 0x48] = [0]
   \<and> list_all (followed_by 2 [0, 0, 1, 0, 0x48]) (marker_positions [0, 0, 1, 0, 0x48])
   \<and> ParseVvcNalUnits [0, 0, 1, 0, 0x48] = []
   \<and> marker_positions [0, 0, 1, 0, 0, 1, 0, 0x48, 0, 0, 0, 0] = [0, 3]
   \<and> list_all (followed_by 2 [0, 0, 1, 0, 0, 1, 0, 0x48, 0, 0, 0, 0])
        (marker_positions [0, 0, 1, 0, 0, 1, 0, 0x48, 0, 0, 0, 0])
   \<and> ParseVvcNalUnits [0, 0, 1, 0, 0, 1, 0, 0x48, 0, 0, 0, 0] = [''trail_nvc'']"
  by code_simp

text \<open>
  C2, amended. If every occurrence of the marker is followed by at least three bytes
  and no occurrence begins right after another one, then \<open>ParseVvcNalUnits\<close> returns
  exactly one name per occurrence, in the order of the occurrences, each the table entry
  at index \<open>(b >> 3) & 0x1F\<close> of the second byte \<open>b\<close> after the marker; the byte
  \<open>0x48\<close> gives index 9, \<open>cra_nut\<close>.
\<close>

theorem ParseVvcNalUnits_one_name_per_marker:
  assumes "\<forall>p \<in> set (marker_positions data). followed_by 3 data p \<and> \<not> adjacent_marker data p"
  shows "ParseVvcNalUnits data = map (nal_of data) (marker_positions data)
         \<and> length (ParseVvcNalUnits data) = length (marker_positions data)
         \<and> nalType 0x48 = 9 \<and> GetVvcNalUnitType 0x48 = ''cra_nut''"
proof -
  have mp: "\<And>p. marker_at data p \<Longrightarrow> p \<in> set (marker_positions data)"
    by (auto simp: marker_positions_def marker_at_iff)
  have A1: "\<forall>p. marker_at data p \<longrightarrow> p + 5 < length data"
    using assms mp by (fastforce simp: followed_by_def)
  have A2: "\<forall>p. marker_at data p \<longrightarrow> \<not> marker_at data (p + 3)"
    using assms mp by (fastforce simp: adjacent_marker_def)
  have "ParseVvcNalUnits data = map (nal_of data) (marker_positions data)"
    using scan_markers[OF A1 A2, of 0 "[]"]
    by (simp add: ParseVvcNalUnits_def marker_positions_def nal_of_def GetVvcNalUnitType_nth)
  moreover have "nalType 0x48 = 9 \<and> GetVvcNalUnitType 0x48 = ''cra_nut''"
    by code_simp
  ultimately show ?thesis by simp
qed

theorem ParseVvcNalUnits_one_name_per_marker_witness:
  "marker_positions [0, 0, 1, 0, 0x48, 0, 0, 0, 1, 0, 0x40, 0] = [0, 6]
   \<and> list_all (followed_by 3 [0, 0, 1, 0, 0x48, 0, 0, 0, 1, 0, 0x40, 0]) [0, 6]
   \<and> ParseVvcNalUnits [0, 0, 1, 0, 0x48, 0, 0, 0, 1, 0, 0x40, 0] =
        map (nal_of [0, 0, 1, 0, 0x48, 0, 0, 0, 1, 0, 0x40, 0]) [0, 6]
   \<and> ParseVvcNalUnits [0, 0, 1, 0, 0x48, 0, 0, 0, 1, 0, 0x40, 0] = [''cra_nut'', ''idr_n_lp'']"
proof -
  have mp: "marker_positions [0, 0, 1, 0, 0x48, 0, 0, 0, 1, 0, 0x40, 0] = [0, 6]"
    by code_simp
  have h: "\<forall>p \<in> set (marker_positions [0, 0, 1, 0, 0x48, 0, 0, 0, 1, 0, 0x40, 0]).
       followed_by 3 [0, 0, 1, 0, 0x48, 0, 0, 0, 1, 0, 0x40, 0] p
       \<and> \<not> adjacent_marker [0, 0, 1, 0, 0x48, 0, 0, 0, 1, 0, 0x40, 0] p"
    unfolding mp by code_simp
  have f: "list_all (followed_by 3 [0, 0, 1, 0, 0x48, 0, 0, 0, 1, 0, 0x40, 0]) [0, 6]"
    by code_simp
  have n: "map (nal_of [0, 0, 1, 0, 0x48, 0, 0, 0, 1, 0, 0x40, 0]) [0, 6] =
             [''cra_nut'', ''idr_n_lp'']"
    by code_simp
  show ?thesis
    using ParseVvcNalUnits_one_name_per_marker[OF h] mp f n by simp
qed


section \<open>Random-access events\<close>

text \<open>
  C1. The claim asks for exactly one random-access event per finalized payload. The
  loop over the names in \<open>Process\<close> logs one event for every name that is a
  random-access type. The payload below holds two of them (\<open>cra_nut\<close> and
  \<open>idr_n_lp\<close>); finalizing it on the next \<open>PUSI\<close> packet logs two events, both with
  the position and time stamp of the payload.
\<close>

theorem H266Record_Process_logs_each_rap_nal:
  "ParseVvcNalUnits [0, 0, 1, 0, 0x48, 0, 0, 1, 0, 0x40, 0, 0, 0, 0, 0, 0] =
     [''cra_nut'', ''idr_n_lp'']
   \<and> map_sum id IFrames
     (H266Record_Process hp
        \<lparr>PcrTime = 0, Pid = 256, IFrames = [],
         curpkt = Some \<lparr>Pos = 0, Pts = 1000, Dts = 0, Pcr = 0, Size = 16,
                         Data = [0, 0, 1, 0, 0x48, 0, 0, 1, 0, 0x40, 0, 0, 0, 0, 0, 0]\<rparr>,
         Pkts = [], WorkaroundPESFlag = False, WorkaroundPES = [], NalInfos = []\<rparr>
        \<lparr>tsPos = 188, PUSI = 1, tsData = []\<rparr>)
   = Inr [\<lparr>iPos = 0, iPts = 1000, Key = True\<rparr>, \<lparr>iPos = 0, iPts = 1000, Key = True\<rparr>]"
  by code_simp

text \<open>
  C3. The claim asks \<open>Flush\<close> to finalize the outstanding packet exactly as a
  following \<open>PUSI\<close> packet would. Both \<open>Flush\<close> methods append the same
  structural-unit record and the same packet to the histories, but neither detects or
  records the random-access point: on an H.266 payload with a \<open>cra_nut\<close> unit
  \<open>Flush\<close> logs no event where \<open>Process\<close> logs one, and on an MPEG-H payload with a
  configuration packet \<open>Flush\<close> drops the flag that \<open>parseMhasPackets\<close> returns,
  where \<open>Process\<close> writes the event and appends to \<open>RapFrames\<close>.
\<close>

theorem Flush_records_no_random_access_event:
  "IFrames (H266Record_Flush
        \<lparr>PcrTime = 0, Pid = 256, IFrames = [],
         curpkt = Some \<lparr>Pos = 0, Pts = 1000, Dts = 0, Pcr = 0, Size = 8,
                         Data = [0, 0, 1, 0, 0x48, 0, 0, 0]\<rparr>,
         Pkts = [], WorkaroundPESFlag = False, WorkaroundPES = [], NalInfos = []\<rparr>) = []
   \<and> IFrames (H266Record_finalize
        \<lparr>PcrTime = 0, Pid = 256, IFrames = [],
         curpkt = Some \<lparr>Pos = 0, Pts = 1000, Dts = 0, Pcr = 0, Size = 8,
                         Data = [0, 0, 1, 0, 0x48, 0, 0, 0]\<rparr>,
         Pkts = [], WorkaroundPESFlag = False, WorkaroundPES = [], NalInfos = []\<rparr>) =
       [\<lparr>iPos = 0, iPts = 1000, Key = True\<rparr>]
   \<and> map_sum id (\<lambda>s. (RapFrames s, RapLog s, MhasPackets s, length (Pkts s)))
       (MpeghAudioRecord_Flush
        \<lparr>PcrTime = 0, Pid = 257, IFrames = [],
         curpkt = Some \<lparr>Pos = 0, Pts = 1000, Dts = 0, Pcr = 0, Size = 2, Data = [0x20, 0x00]\<rparr>,
         Pkts = [], WorkaroundPESFlag = False, WorkaroundPES = [],
         MhasPackets = [], RapFrames = [], RapLog = None\<rparr>) =
       Inr ([], None,
            [\<lparr>miPos = 0, miPts = 1000, PacketTypes = [''PACTYP_MPEGH3DACFG'']\<rparr>], 1)
   \<and> map_sum id (\<lambda>s. (RapFrames s, RapLog s, MhasPackets s, length (Pkts s)))
       (MpeghAudioRecord_finalize
        \<lparr>PcrTime = 0, Pid = 257, IFrames = [],
         curpkt = Some \<lparr>Pos = 0, Pts = 1000, Dts = 0, Pcr = 0, Size = 2, Data = [0x20, 0x00]\<rparr>,
         Pkts = [], WorkaroundPESFlag = False, WorkaroundPES = [],
         MhasPackets = [], RapFrames = [], RapLog = None\<rparr>) =
       Inr ([0], Some [''Pos, PTS, Key'', ''0, 1000, true''],
            [\<lparr>miPos = 0, miPts = 1000, PacketTypes = [''PACTYP_MPEGH3DACFG'']\<rparr>], 1)"
  by code_simp


section \<open>Properties of the escaped-value decoder\<close>

lemma maxVal_mask: "maxVal n = mask n"
  by (simp add: maxVal_def mask_eq_exp_minus_1)

lemma step_bound: "take_bit k (v::64 word) = v \<Longrightarrow>
    take_bit (Suc k) (push_bit 1 v OR of_bool b) = push_bit 1 v OR of_bool b"
proof -
  assume a: "take_bit k v = v"
  have bv: "\<And>i. bit v i \<Longrightarrow> i < k"
    using a by (metis bit_take_bit_iff)
  show "take_bit (Suc k) (push_bit 1 v OR of_bool b) = push_bit 1 v OR of_bool b"
  proof (rule bit_word_eqI)
    fix n assume "n < LENGTH(64)"
    have "bit (push_bit 1 v) n \<Longrightarrow> n < Suc k"
      unfolding bit_push_bit_iff using bv[of "n - 1"] by auto
    moreover have "bit (of_bool b :: 64 word) n \<Longrightarrow> n < Suc k"
      by (auto simp: bit_of_bool_iff)
    ultimately show "bit (take_bit (Suc k) (push_bit 1 v OR of_bool b)) n = bit (push_bit 1 v OR of_bool b) n"
      unfolding bit_take_bit_iff bit_or_iff by blast
  qed
qed

lemma ReadBit64_loop_bound:
  "ReadBit64_loop n v r = Inr (v', r') \<Longrightarrow> take_bit k v = v \<Longrightarrow> take_bit (k + n) v' = v'"
proof (induction n arbitrary: v r k)
  case 0
  then show ?case by simp
next
  case (Suc n)
  from Suc.prems(1) obtain b r1 where rb: "ReadBit r = Inr (b, r1)"
    and l: "ReadBit64_loop n (push_bit 1 v OR of_bool b) r1 = Inr (v', r')"
    by (auto split: sum.splits)
  have "take_bit (Suc k + n) v' = v'"
    using Suc.IH[OF l step_bound[OF Suc.prems(2)]] .
  then show ?case by simp
qed

lemma ReadBit64_bound: "ReadBit64 r n = Inr (v, r') \<Longrightarrow> v \<le> maxVal n"
proof -
  assume "ReadBit64 r n = Inr (v, r')"
  then have "take_bit (0 + n) v = v"
    unfolding ReadBit64_def by (rule ReadBit64_loop_bound) simp
  then have "v = v AND mask n" by (simp add: take_bit_eq_mask)
  then have "v \<le> mask n" using word_and_le1[of v "mask n"] by simp
  then show ?thesis by (simp add: maxVal_mask)
qed

text \<open>
  C4. \<open>parseEscapedValue\<close> reads \<open>n\<close> bits as \<open>v\<close>, which is at most \<open>2^n - 1\<close>. If
  \<open>v\<close> is below \<open>2^n - 1\<close> it returns \<open>v\<close>; if \<open>v\<close> is \<open>2^n - 1\<close> it reads \<open>m\<close> more
  bits as \<open>v2\<close> and returns \<open>v + v2\<close>, unless \<open>v2\<close> is \<open>2^m - 1\<close>, in which case it
  reads \<open>k\<close> more bits as \<open>v3\<close> and returns \<open>v + v2 + v3\<close> (sums of \<open>uint64\<close>). With
  the widths (3, 8, 8) the bits \<open>101\<close> decode to 5 and only three bits are consumed;
  the bits \<open>111 00000011\<close> decode to 10.
\<close>

theorem parseEscapedValue_rule:
  assumes "ReadBit64 r n = Inr (v, r1)"
  shows "maxVal n = 2 ^ n - 1 \<and> v \<le> maxVal n
    \<and> (v < maxVal n \<longrightarrow> parseEscapedValue r n m k = Inr (v, r1))
    \<and> (v = maxVal n \<longrightarrow>
         (\<forall>v2 r2. ReadBit64 r1 m = Inr (v2, r2) \<longrightarrow>
            v2 \<le> maxVal m
            \<and> (v2 < maxVal m \<longrightarrow> parseEscapedValue r n m k = Inr (v + v2, r2))
            \<and> (v2 = maxVal m \<longrightarrow>
                 (\<forall>v3 r3. ReadBit64 r2 k = Inr (v3, r3) \<longrightarrow>
                    parseEscapedValue r n m k = Inr (v + v2 + v3, r3)))))
    \<and> parseEscapedValue (reader_at [0xA0] 0) 3 8 8 =
          Inr (5, \<lparr>RData = [0xA0], Base = 0, Off = 3\<rparr>)
    \<and> parseEscapedValue (reader_at [0xE0, 0x60] 0) 3 8 8 =
          Inr (10, \<lparr>RData = [0xE0, 0x60], Base = 1, Off = 3\<rparr>)"
proof -
  have m: "maxVal n = 2 ^ n - 1"
    by (simp add: maxVal_def)
  have g: "v \<le> maxVal n
    \<and> (v < maxVal n \<longrightarrow> parseEscapedValue r n m k = Inr (v, r1))
    \<and> (v = maxVal n \<longrightarrow>
         (\<forall>v2 r2. ReadBit64 r1 m = Inr (v2, r2) \<longrightarrow>
            v2 \<le> maxVal m
            \<and> (v2 < maxVal m \<longrightarrow> parseEscapedValue r n m k = Inr (v + v2, r2))
            \<and> (v2 = maxVal m \<longrightarrow>
                 (\<forall>v3 r3. ReadBit64 r2 k = Inr (v3, r3) \<longrightarrow>
                    parseEscapedValue r n m k = Inr (v + v2 + v3, r3)))))"
    using assms ReadBit64_bound[OF assms]
    by (auto simp: parseEscapedValue_def dest: ReadBit64_bound)
  have e5: "parseEscapedValue (reader_at [0xA0] 0) 3 8 8 =
          Inr (5, \<lparr>RData = [0xA0], Base = 0, Off = 3\<rparr>)"
    by code_simp
  have e10: "parseEscapedValue (reader_at [0xE0, 0x60] 0) 3 8 8 =
          Inr (10, \<lparr>RData = [0xE0, 0x60], Base = 1, Off = 3\<rparr>)"
    by code_simp
  show ?thesis using m g e5 e10 by blast
qed

theorem parseEscapedValue_rule_witness:
  "ReadBit64 (reader_at [0xE0, 0x60] 0) 3 = Inr (7, \<lparr>RData = [0xE0, 0x60], Base = 0, Off = 3\<rparr>)
   \<and> maxVal 3 = 7
   \<and> ReadBit64 \<lparr>RData = [0xE0, 0x60], Base = 0, Off = 3\<rparr> 8 =
        Inr (3, \<lparr>RData = [0xE0, 0x60], Base = 1, Off = 3\<rparr>)
   \<and> 3 < maxVal 8
   \<and> parseEscapedValue (reader_at [0xE0, 0x60] 0) 3 8 8 =
        Inr (7 + 3, \<lparr>RData = [0xE0, 0x60], Base = 1, Off = 3\<rparr>)"
proof -
  have a: "ReadBit64 (reader_at [0xE0, 0x60] 0) 3 =
             Inr (7, \<lparr>RData = [0xE0, 0x60], Base = 0, Off = 3\<rparr>)"
    by code_simp
  have b: "ReadBit64 \<lparr>RData = [0xE0, 0x60], Base = 0, Off = 3\<rparr> 8 =
             Inr (3, \<lparr>RData = [0xE0, 0x60], Base = 1, Off = 3\<rparr>)"
    by code_simp
  have c: "maxVal 3 = 7" "(3::uint64) < maxVal 8"
    by code_simp+
  show ?thesis
    using parseEscapedValue_rule[OF a, of 8 8] a b c by simp
qed


section \<open>Properties of the MHAS analyzer\<close>

lemma mhas_packet_cases:
  assumes "mhas_header r = Inr (t, l, r1)"
  shows "mhas_packet data r ts b =
     (if l > word_of_int (int (length data) - int (Base r1))
      then Inr (r\<lparr>Base := Base r + 1\<rparr>, ts, b)
      else Inr (SkipByte r1 (unat l), ts @ [GetMpeghAudioPacketType (uint t)],
                b \<or> t = 1 \<or> t = 6))"
proof -
  have "RData r1 = RData r" using mhas_header_bitpos[OF assms] by simp
  then have "r1\<lparr>Base := Base r + 1, Off := Off r\<rparr> = r\<lparr>Base := Base r + 1\<rparr>"
    by (cases r, cases r1) simp
  then show ?thesis using assms by (simp add: mhas_packet_def)
qed

lemma mhas_loop_step:
  assumes "Base r + 2 \<le> length data" "mhas_packet data r ts b = Inr (r', ts', b')"
  shows "mhas_loop data r ts b = mhas_loop data r' ts' b'"
  using assms by (subst mhas_loop.simps) simp

lemma mhas_resync_step:
  assumes "oversized_at data p" "p + 2 \<le> length data"
  shows "mhas_packet data (reader_at data p) ts b = Inr (reader_at data (p + 1), ts, b)"
proof -
  from assms(1) obtain t l r1 where h: "mhas_header (reader_at data p) = Inr (t, l, r1)"
    and o: "l > word_of_int (int (length data) - int (Base r1))"
    by (auto simp: oversized_at_def split: sum.splits)
  show ?thesis
    using mhas_packet_cases[OF h, of data ts b] o by (simp add: reader_at_def)
qed

lemma mhas_resync_run:
  assumes "\<forall>i \<in> {p..<q}. oversized_at data i" "p \<le> q" "q + 2 \<le> length data"
  shows "mhas_loop data (reader_at data p) ts b = mhas_loop data (reader_at data q) ts b"
  using assms
proof (induction "q - p" arbitrary: p)
  case 0
  then show ?case by simp
next
  case (Suc d)
  then have ov: "oversized_at data p" and lt: "p < q" by auto
  have g: "Base (reader_at data p) + 2 \<le> length data"
    using lt Suc.prems(3) by (simp add: reader_at_def)
  have st: "mhas_packet data (reader_at data p) ts b = Inr (reader_at data (p + 1), ts, b)"
    using mhas_resync_step[OF ov] lt Suc.prems(3) by simp
  have "mhas_loop data (reader_at data p) ts b = mhas_loop data (reader_at data (p + 1)) ts b"
    using mhas_loop_step[OF g st] .
  also have "\<dots> = mhas_loop data (reader_at data q) ts b"
    using Suc.hyps(1)[of "p + 1"] Suc.hyps(2) Suc.prems lt by auto
  finally show ?case .
qed

lemma mhas_packet_prefix:
  "mhas_packet data r ts b = Inr (r', ts', b') \<Longrightarrow> \<exists>rest. ts' = ts @ rest"
  by (auto simp: mhas_packet_def split: sum.splits if_splits)

lemma mhas_loop_prefix:
  "mhas_loop data r ts b = Inr (ts', b') \<Longrightarrow> \<exists>rest. ts' = ts @ rest"
proof (induction data r ts b rule: mhas_loop.induct)
  case (1 data r ts b)
  show ?case
  proof (cases "Base r < length data \<and> \<not> Base r + 2 > length data")
    case False
    then show ?thesis using "1.prems" by (subst (asm) mhas_loop.simps) (auto split: if_splits)
  next
    case True
    then obtain r1 ts1 b1 where p: "mhas_packet data r ts b = Inr (r1, ts1, b1)"
      and l: "mhas_loop data r1 ts1 b1 = Inr (ts', b')"
      using "1.prems" by (subst (asm) mhas_loop.simps) (auto split: sum.splits)
    from "1.IH"[OF _ _ p refl refl l] True obtain rest where "ts' = ts1 @ rest" by auto
    moreover from mhas_packet_prefix[OF p] obtain rest1 where "ts1 = ts @ rest1" by auto
    ultimately show ?thesis by simp
  qed
qed

text \<open>
  C5, as stated, fails in its second half. In the payload below the first packet
  declares 2046 bytes, so the cursor is reset to offset 1; the packet at offset 2 is
  valid (an audio frame with two bytes of payload). The decode that starts at offset
  1, inside the corrupt header, yields a packet of unknown type whose length fits and
  that covers the rest of the payload, so the valid packet is never classified.
\<close>

theorem mhas_resync_counterexample:
  "mhas_packet [0x27, 0xFE, 0x40, 0x02, 0xAA, 0xBB]
       (reader_at [0x27, 0xFE, 0x40, 0x02, 0xAA, 0xBB] 0) [] False =
     Inr (reader_at [0x27, 0xFE, 0x40, 0x02, 0xAA, 0xBB] 1, [], False)
   \<and> mhas_packet [0x27, 0xFE, 0x40, 0x02, 0xAA, 0xBB]
       (reader_at [0x27, 0xFE, 0x40, 0x02, 0xAA, 0xBB] 2) [] False =
     Inr (reader_at [0x27, 0xFE, 0x40, 0x02, 0xAA, 0xBB] 6, [''PACTYP_MPEGH3DAFRAME''], False)
   \<and> mhas_loop [0x27, 0xFE, 0x40, 0x02, 0xAA, 0xBB]
       (reader_at [0x27, 0xFE, 0x40, 0x02, 0xAA, 0xBB] 0) [] False =
     Inr ([''unknown_249''], False)"
  by code_simp

text \<open>
  C5, amended. Whenever the decoded length exceeds the bytes left after the header,
  the cursor is reset to exactly one byte past the start of that packet and parsing
  goes on from there. If every offset from \<open>p\<close> up to \<open>q\<close> decodes to such an
  oversized length and the packet at \<open>q\<close> is valid, the loop started at \<open>p\<close> arrives
  at \<open>q\<close>, classifies that packet and continues after it: its name is in every result
  the loop returns.
\<close>

theorem mhas_resync_reaches_valid_packet:
  assumes ov: "\<forall>i \<in> {p..<q}. oversized_at data i" and pq: "p \<le> q" and q2: "q + 2 \<le> length data"
    and h: "mhas_header (reader_at data q) = Inr (t, l, r1)"
    and fit: "\<not> l > word_of_int (int (length data) - int (Base r1))"
  shows "(p < q \<longrightarrow> mhas_packet data (reader_at data p) ts b = Inr (reader_at data (p + 1), ts, b))
    \<and> mhas_loop data (reader_at data p) ts b =
        mhas_loop data (SkipByte r1 (unat l)) (ts @ [GetMpeghAudioPacketType (uint t)])
          (b \<or> t = 1 \<or> t = 6)
    \<and> (\<forall>ts' b'. mhas_loop data (reader_at data p) ts b = Inr (ts', b') \<longrightarrow>
          GetMpeghAudioPacketType (uint t) \<in> set ts')"
proof -
  have a: "p < q \<longrightarrow> mhas_packet data (reader_at data p) ts b = Inr (reader_at data (p + 1), ts, b)"
    using ov q2 mhas_resync_step[of data p ts b] by auto
  have g: "Base (reader_at data q) + 2 \<le> length data"
    using q2 by (simp add: reader_at_def)
  have st: "mhas_packet data (reader_at data q) ts b =
     Inr (SkipByte r1 (unat l), ts @ [GetMpeghAudioPacketType (uint t)], b \<or> t = 1 \<or> t = 6)"
    using mhas_packet_cases[OF h, of data ts b] fit by simp
  have e: "mhas_loop data (reader_at data p) ts b =
        mhas_loop data (SkipByte r1 (unat l)) (ts @ [GetMpeghAudioPacketType (uint t)])
          (b \<or> t = 1 \<or> t = 6)"
    using mhas_resync_run[OF ov pq q2, of ts b] mhas_loop_step[OF g st] by simp
  have c: "\<forall>ts' b'. mhas_loop data (reader_at data p) ts b = Inr (ts', b') \<longrightarrow>
          GetMpeghAudioPacketType (uint t) \<in> set ts'"
    unfolding e using mhas_loop_prefix by fastforce
  show ?thesis using a e c by blast
qed

theorem mhas_resync_reaches_valid_packet_witness:
  "oversized_at [0x27, 0x27, 0x40, 0x02, 0xAA, 0xBB] 0
   \<and> oversized_at [0x27, 0x27, 0x40, 0x02, 0xAA, 0xBB] 1
   \<and> mhas_header (reader_at [0x27, 0x27, 0x40, 0x02, 0xAA, 0xBB] 2) =
        Inr (2, 2, reader_at [0x27, 0x27, 0x40, 0x02, 0xAA, 0xBB] 4)
   \<and> mhas_loop [0x27, 0x27, 0x40, 0x02, 0xAA, 0xBB]
        (reader_at [0x27, 0x27, 0x40, 0x02, 0xAA, 0xBB] 0) [] False =
      mhas_loop [0x27, 0x27, 0x40, 0x02, 0xAA, 0xBB]
        (reader_at [0x27, 0x27, 0x40, 0x02, 0xAA, 0xBB] 6) [''PACTYP_MPEGH3DAFRAME''] False
   \<and> mhas_loop [0x27, 0x27, 0x40, 0x02, 0xAA, 0xBB]
        (reader_at [0x27, 0x27, 0x40, 0x02, 0xAA, 0xBB] 0) [] False =
      Inr ([''PACTYP_MPEGH3DAFRAME''], False)"
proof -
  have o: "oversized_at [0x27, 0x27, 0x40, 0x02, 0xAA, 0xBB] 0"
          "oversized_at [0x27, 0x27, 0x40, 0x02, 0xAA, 0xBB] 1"
    by code_simp+
  have s: "{0..<2::nat} = {0, 1}" by auto
  have ov: "\<forall>i \<in> {0..<2}. oversized_at [0x27, 0x27, 0x40, 0x02, 0xAA, 0xBB] i"
    unfolding s using o by simp
  have q2: "2 + 2 \<le> length [0x27, 0x27, 0x40, 0x02, 0xAA, 0xBB :: byte]" by simp
  have h: "mhas_header (reader_at [0x27, 0x27, 0x40, 0x02, 0xAA, 0xBB] 2) =
        Inr (2, 2, reader_at [0x27, 0x27, 0x40, 0x02, 0xAA, 0xBB] 4)"
    by code_simp
  have fit: "\<not> (2 :: uint64) > word_of_int (int (length [0x27, 0x27, 0x40, 0x02, 0xAA, 0xBB :: byte])
                 - int (Base (reader_at [0x27, 0x27, 0x40, 0x02, 0xAA, 0xBB] 4)))"
    by code_simp
  have sk: "SkipByte (reader_at [0x27, 0x27, 0x40, 0x02, 0xAA, 0xBB] 4) (unat (2 :: uint64)) =
              reader_at [0x27, 0x27, 0x40, 0x02, 0xAA, 0xBB] 6"
    by code_simp
  have nm: "GetMpeghAudioPacketType (uint (2 :: uint64)) = ''PACTYP_MPEGH3DAFRAME''"
    by code_simp
  have r: "mhas_loop [0x27, 0x27, 0x40, 0x02, 0xAA, 0xBB]
        (reader_at [0x27, 0x27, 0x40, 0x02, 0xAA, 0xBB] 0) [] False =
      Inr ([''PACTYP_MPEGH3DAFRAME''], False)"
    by code_simp
  have pq: "(0::nat) \<le> 2" by simp
  have "mhas_loop [0x27, 0x27, 0x40, 0x02, 0xAA, 0xBB]
          (reader_at [0x27, 0x27, 0x40, 0x02, 0xAA, 0xBB] 0) [] False =
        mhas_loop [0x27, 0x27, 0x40, 0x02, 0xAA, 0xBB]
          (SkipByte (reader_at [0x27, 0x27, 0x40, 0x02, 0xAA, 0xBB] 4) (unat (2 :: uint64)))
          ([] @ [GetMpeghAudioPacketType (uint (2 :: uint64))])
          (False \<or> (2 :: uint64) = 1 \<or> (2 :: uint64) = 6)"
    using mhas_resync_reaches_valid_packet[OF ov pq q2 h fit, of "[]" False] by blast
  then have e: "mhas_loop [0x27, 0x27, 0x40, 0x02, 0xAA, 0xBB]
          (reader_at [0x27, 0x27, 0x40, 0x02, 0xAA, 0xBB] 0) [] False =
        mhas_loop [0x27, 0x27, 0x40, 0x02, 0xAA, 0xBB]
          (reader_at [0x27, 0x27, 0x40, 0x02, 0xAA, 0xBB] 6) [''PACTYP_MPEGH3DAFRAME''] False"
    unfolding sk nm by simp
  show ?thesis
    using o h e r by blast
qed

text \<open>
  C10. The loop of \<open>parseMhasPackets\<close> terminates: \<open>mhas_loop\<close> is a total function,
  accepted with the measure \<open>len(data) - r.Base\<close>. In every pass through the body
  that returns, the byte cursor strictly increases: the header moves it by at least
  two bytes, a validated packet moves it further by \<open>packetLength\<close> bytes, and the
  resynchronization branch sets it to exactly one byte past the start of the packet.
\<close>

theorem mhas_loop_cursor_increases:
  assumes g: "Base r + 2 \<le> length data"
      and p: "mhas_packet data r ts b = Inr (r', ts', b')"
  shows "Base r < Base r'
    \<and> length data - Base r' < length data - Base r
    \<and> mhas_loop data r ts b = mhas_loop data r' ts' b'
    \<and> (\<exists>t l r1. mhas_header r = Inr (t, l, r1) \<and> Base r + 2 \<le> Base r1
          \<and> Base r' = (if l > word_of_int (int (length data) - int (Base r1))
                        then Base r + 1 else Base r1 + unat l))"
proof -
  have inc: "Base r < Base r'" using mhas_packet_Base[OF p] .
  from p obtain t l r1 where h: "mhas_header r = Inr (t, l, r1)"
    by (auto simp: mhas_packet_def split: sum.splits)
  have b2: "Base r + 2 \<le> Base r1" using mhas_header_Base[OF h] .
  have br: "Base r' = (if l > word_of_int (int (length data) - int (Base r1))
                        then Base r + 1 else Base r1 + unat l)"
    using p mhas_packet_cases[OF h, of data ts b] by (auto simp: SkipByte_def split: if_splits)
  show ?thesis
    using inc g mhas_loop_step[OF g p] h b2 br by auto
qed

theorem mhas_loop_cursor_increases_witness:
  "mhas_packet [0x27, 0x27, 0x40, 0x02, 0xAA, 0xBB]
      (reader_at [0x27, 0x27, 0x40, 0x02, 0xAA, 0xBB] 2) [] False =
     Inr (reader_at [0x27, 0x27, 0x40, 0x02, 0xAA, 0xBB] 6, [''PACTYP_MPEGH3DAFRAME''], False)
   \<and> Base (reader_at [0x27, 0x27, 0x40, 0x02, 0xAA, 0xBB] 2)
       < Base (reader_at [0x27, 0x27, 0x40, 0x02, 0xAA, 0xBB] 6)"
proof -
  have g: "Base (reader_at [0x27, 0x27, 0x40, 0x02, 0xAA, 0xBB] 2) + 2
            \<le> length [0x27, 0x27, 0x40, 0x02, 0xAA, 0xBB :: byte]"
    by code_simp
  have p: "mhas_packet [0x27, 0x27, 0x40, 0x02, 0xAA, 0xBB]
      (reader_at [0x27, 0x27, 0x40, 0x02, 0xAA, 0xBB] 2) [] False =
     Inr (reader_at [0x27, 0x27, 0x40, 0x02, 0xAA, 0xBB] 6, [''PACTYP_MPEGH3DAFRAME''], False)"
    by code_simp
  show ?thesis
    using mhas_loop_cursor_increases[OF g p] p by simp
qed

text \<open>
  C8. \<open>parseMhasPackets\<close> appends a record to \<open>MhasPackets\<close> if and only if the loop
  classified at least one packet of the payload, and \<open>Report\<close> writes the file
  \<open><PID>-mhas.csv\<close> only if \<open>MhasPackets\<close> is not empty.
\<close>

theorem MhasPackets_appended_iff_classified:
  assumes "parseMhasPackets s data pos pts = Inr (s', isRap)"
  shows "(\<exists>packetTypes. mhas_loop data (reader_at data 0) [] False = Inr (packetTypes, isRap)
           \<and> MhasPackets s' =
               (if packetTypes = [] then MhasPackets s
                else MhasPackets s @ [\<lparr>miPos = pos, miPts = pts, PacketTypes = packetTypes\<rparr>])
           \<and> (length (MhasPackets s') = length (MhasPackets s) + 1 \<longleftrightarrow> packetTypes \<noteq> [])
           \<and> (MhasPackets s' = MhasPackets s \<longleftrightarrow> packetTypes = []))
    \<and> map fst (MpeghAudioRecord_Report s') =
         (if MhasPackets s' = [] then [FormatInt (Pid s') @ ''.csv'']
          else [FormatInt (Pid s') @ ''.csv'', FormatInt (Pid s') @ ''-mhas.csv''])"
proof -
  from assms obtain packetTypes where
    l: "mhas_loop data (reader_at data 0) [] False = Inr (packetTypes, isRap)"
    and s': "s' = (if length packetTypes > 0
               then s\<lparr>MhasPackets := MhasPackets s @
                         [\<lparr>miPos = pos, miPts = pts, PacketTypes = packetTypes\<rparr>]\<rparr>
               else s)"
    unfolding parseMhasPackets_def by (auto split: sum.splits)
  have m: "MhasPackets s' =
               (if packetTypes = [] then MhasPackets s
                else MhasPackets s @ [\<lparr>miPos = pos, miPts = pts, PacketTypes = packetTypes\<rparr>])"
    using s' by simp
  have c1: "length (MhasPackets s') = length (MhasPackets s) + 1 \<longleftrightarrow> packetTypes \<noteq> []"
    unfolding m by simp
  have c2: "MhasPackets s' = MhasPackets s \<longleftrightarrow> packetTypes = []"
    unfolding m by simp
  have r: "map fst (MpeghAudioRecord_Report s') =
         (if MhasPackets s' = [] then [FormatInt (Pid s') @ ''.csv'']
          else [FormatInt (Pid s') @ ''.csv'', FormatInt (Pid s') @ ''-mhas.csv''])"
    by (simp add: MpeghAudioRecord_Report_def)
  show ?thesis using l m c1 c2 r by blast
qed

theorem MhasPackets_appended_iff_classified_witness:
  "parseMhasPackets
      \<lparr>PcrTime = 0, Pid = 257, IFrames = [], curpkt = None, Pkts = [],
       WorkaroundPESFlag = False, WorkaroundPES = [],
       MhasPackets = [], RapFrames = [], RapLog = None\<rparr> [0x20, 0x00] 0 1000 =
     Inr (\<lparr>PcrTime = 0, Pid = 257, IFrames = [], curpkt = None, Pkts = [],
           WorkaroundPESFlag = False, WorkaroundPES = [],
           MhasPackets = [\<lparr>miPos = 0, miPts = 1000, PacketTypes = [''PACTYP_MPEGH3DACFG'']\<rparr>],
           RapFrames = [], RapLog = None\<rparr>, True)
   \<and> map fst (MpeghAudioRecord_Report
        \<lparr>PcrTime = 0, Pid = 257, IFrames = [], curpkt = None, Pkts = [],
         WorkaroundPESFlag = False, WorkaroundPES = [],
         MhasPackets = [\<lparr>miPos = 0, miPts = 1000, PacketTypes = [''PACTYP_MPEGH3DACFG'']\<rparr>],
         RapFrames = [], RapLog = None\<rparr>) = [''257.csv'', ''257-mhas.csv'']"
proof -
  have a: "parseMhasPackets
      \<lparr>PcrTime = 0, Pid = 257, IFrames = [], curpkt = None, Pkts = [],
       WorkaroundPESFlag = False, WorkaroundPES = [],
       MhasPackets = [], RapFrames = [], RapLog = None\<rparr> [0x20, 0x00] 0 1000 =
     Inr (\<lparr>PcrTime = 0, Pid = 257, IFrames = [], curpkt = None, Pkts = [],
           WorkaroundPESFlag = False, WorkaroundPES = [],
           MhasPackets = [\<lparr>miPos = 0, miPts = 1000, PacketTypes = [''PACTYP_MPEGH3DACFG'']\<rparr>],
           RapFrames = [], RapLog = None\<rparr>, True)"
    by code_simp
  have f: "FormatInt 257 = ''257''"
    by code_simp
  have "map fst (MpeghAudioRecord_Report
        \<lparr>PcrTime = 0, Pid = 257, IFrames = [], curpkt = None, Pkts = [],
         WorkaroundPESFlag = False, WorkaroundPES = [],
         MhasPackets = [\<lparr>miPos = 0, miPts = 1000, PacketTypes = [''PACTYP_MPEGH3DACFG'']\<rparr>],
         RapFrames = [], RapLog = None\<rparr>) = [''257.csv'', ''257-mhas.csv'']"
    using conjunct2[OF MhasPackets_appended_iff_classified[OF a]] by (simp add: f)
  then show ?thesis using a by blast
qed


section \<open>Properties of the timing report\<close>

lemma div_300_bounds:
  fixes a :: int
  assumes "0 \<le> a"
  shows "0 \<le> a div 300 \<and> a div 300 \<le> a"
proof -
  have "a div 300 \<le> a div 1" by (rule zdiv_mono2) (use assms in simp_all)
  moreover have "0 \<le> a div 300" using assms by (simp add: pos_imp_zdiv_nonneg_iff)
  ultimately show ?thesis by simp
qed

lemma sdiv_300_range:
  fixes a :: int
  assumes "- (2 ^ 63) \<le> a" "a < 2 ^ 63"
  shows "- (2 ^ 63) \<le> a sdiv 300 \<and> a sdiv 300 < 2 ^ 63"
proof (cases "0 \<le> a")
  case True
  have "a sdiv 300 = a div 300"
  proof (cases "a = 0")
    case True then show ?thesis by simp
  next
    case False
    then have "sgn a = 1" using \<open>0 \<le> a\<close> by simp
    then show ?thesis using \<open>0 \<le> a\<close> by (simp add: signed_divide_int_def)
  qed
  then show ?thesis using div_300_bounds[OF True] assms by linarith
next
  case False
  then have "sgn a = - 1" by simp
  then have e: "a sdiv 300 = - ((- a) div 300)"
    using False by (simp add: signed_divide_int_def)
  have "0 \<le> - a" using False by simp
  from div_300_bounds[OF this] show ?thesis using assms e by linarith
qed

lemma sint_sdiv_300:
  fixes x :: "64 word"
  shows "sint (word_of_int (sint x sdiv 300) :: 64 word) = sint x sdiv 300"
proof -
  have r: "- (2 ^ 63) \<le> sint x" "sint x < 2 ^ 63"
    using sint_ge[of x] sint_lt[of x] by simp_all
  have b: "- (2 ^ 63) \<le> sint x sdiv 300" "sint x sdiv 300 < 2 ^ 63"
    using sdiv_300_range[OF r] by simp_all
  have "signed_take_bit 63 (sint x sdiv 300) = sint x sdiv 300"
    by (rule signed_take_bit_int_eq_self) (use b in simp_all)
  then show ?thesis by (simp add: signed_of_int)
qed

lemma sint_int64_div_300: "sint (int64_div x 300) = sint x sdiv 300"
proof -
  have s300: "sint (300 :: int64) = 300" by simp
  show ?thesis unfolding int64_div_def s300 by (rule sint_sdiv_300)
qed

lemma pes_row_cols:
  "pes_row p =
     Join [FormatInt (sint (Pos p)),
           FormatInt (sint (Size p)),
           FormatInt (sint (Pcr p) sdiv 300),
           FormatInt (sint (Pts p)),
           FormatInt (sint (if Dts p = 0 then Pts p else Dts p)),
           FormatInt (sint ((if Dts p = 0 then Pts p else Dts p) - int64_div (Pcr p) 300))] '', ''"
  by (simp add: pes_row_def Let_def sint_int64_div_300)

text \<open>
  C7. In \<open><PID>.csv\<close> of both analyzers the line after the header line number \<open>i\<close>
  is the row of the \<open>i\<close>-th finalized packet. Its PCR column is the stored \<open>Pcr\<close>
  divided by 300 (the division of Go, which truncates), its DTS column is \<open>Pts\<close> when
  the stored \<open>Dts\<close> is 0 and \<open>Dts\<close> otherwise, and its last column is that DTS minus
  that PCR (in \<open>int64\<close>).
\<close>

theorem Report_row_columns:
  assumes "i < length (Pkts s)" "j < length (Pkts m)"
  shows "snd (H266Record_Report s ! 0) ! (i + 1) = pes_row (Pkts s ! i)
    \<and> snd (MpeghAudioRecord_Report m ! 0) ! (j + 1) = pes_row (Pkts m ! j)
    \<and> pes_row p =
         Join [FormatInt (sint (Pos p)),
               FormatInt (sint (Size p)),
               FormatInt (sint (Pcr p) sdiv 300),
               FormatInt (sint (Pts p)),
               FormatInt (sint (if Dts p = 0 then Pts p else Dts p)),
               FormatInt (sint ((if Dts p = 0 then Pts p else Dts p) - int64_div (Pcr p) 300))] '', ''
    \<and> sint (int64_div (Pcr p) 300) = sint (Pcr p) sdiv 300"
  using assms pes_row_cols[of p] sint_int64_div_300[of "Pcr p"]
  by (simp add: H266Record_Report_def MpeghAudioRecord_Report_def)

theorem Report_row_columns_witness:
  "snd (H266Record_Report
          \<lparr>PcrTime = 0, Pid = 256, IFrames = [], curpkt = None,
           Pkts = [\<lparr>Pos = 0, Pts = 1000, Dts = 0, Pcr = 27000000, Size = 16, Data = []\<rparr>],
           WorkaroundPESFlag = False, WorkaroundPES = [], NalInfos = []\<rparr> ! 0) ! (0 + 1) =
     ''0, 16, 90000, 1000, 1000, -89000''
   \<and> snd (MpeghAudioRecord_Report
          \<lparr>PcrTime = 0, Pid = 257, IFrames = [], curpkt = None,
           Pkts = [\<lparr>Pos = 188, Pts = 1000, Dts = 900, Pcr = - 301, Size = 16, Data = []\<rparr>],
           WorkaroundPESFlag = False, WorkaroundPES = [],
           MhasPackets = [], RapFrames = [], RapLog = None\<rparr> ! 0) ! (0 + 1) =
     ''188, 16, -1, 1000, 900, 901''"
proof -
  have a: "pes_row \<lparr>Pos = 0, Pts = 1000, Dts = 0, Pcr = 27000000, Size = 16, Data = []\<rparr> =
             ''0, 16, 90000, 1000, 1000, -89000''"
    by code_simp
  have b: "pes_row \<lparr>Pos = 188, Pts = 1000, Dts = 900, Pcr = - 301, Size = 16, Data = []\<rparr> =
             ''188, 16, -1, 1000, 900, 901''"
    by code_simp
  have i: "0 < length (Pkts
          \<lparr>PcrTime = 0, Pid = 256, IFrames = [], curpkt = None,
           Pkts = [\<lparr>Pos = 0, Pts = 1000, Dts = 0, Pcr = 27000000, Size = 16, Data = []\<rparr>],
           WorkaroundPESFlag = False, WorkaroundPES = [], NalInfos = []\<rparr>)"
    by simp
  have j: "0 < length (Pkts
          \<lparr>PcrTime = 0, Pid = 257, IFrames = [], curpkt = None,
           Pkts = [\<lparr>Pos = 188, Pts = 1000, Dts = 900, Pcr = - 301, Size = 16, Data = []\<rparr>],
           WorkaroundPESFlag = False, WorkaroundPES = [],
           MhasPackets = [], RapFrames = [], RapLog = None\<rparr>)"
    by simp
  show ?thesis
    using Report_row_columns[OF i j] a b by simp
qed


section \<open>Properties of the workaround buffer\<close>

lemma Process_workaround_below:
  assumes "WorkaroundPESFlag s" "WorkaroundPES s @ d = buf" "length buf < minlen"
  shows "Process_workaround hp minlen s d = Inr (s\<lparr>WorkaroundPES := buf\<rparr>, [])"
  using assms by (simp add: Process_workaround_def Let_def)

lemma Process_workaround_header:
  assumes "WorkaroundPESFlag s" "curpkt s = Some c" "WorkaroundPES s @ d = buf"
    and "minlen \<le> length buf" "take 3 buf = startcode"
    and "hp buf = (hlen, pts, dts)" "hlen \<le> length buf"
  shows "Process_workaround hp minlen s d =
     Inr (s\<lparr>WorkaroundPES := buf,
            curpkt := Some (c\<lparr>Pts := pts, Dts := dts\<rparr>),
            WorkaroundPESFlag := False\<rparr>,
          drop hlen buf)"
  using assms by (simp add: Process_workaround_def Let_def PesPkt_Read_def)

lemma Process_workaround_off:
  assumes "\<not> WorkaroundPESFlag s"
  shows "Process_workaround hp minlen s d = Inr (s, d)"
  using assms by (simp add: Process_workaround_def)

lemma Process_accumulate_nothing:
  "curpkt s = Some c \<Longrightarrow> Process_accumulate (s\<lparr>WorkaroundPES := b\<rparr>) [] = s\<lparr>WorkaroundPES := b\<rparr>"
  by (simp add: Process_accumulate_def)

lemma H266_below:
  assumes "PUSI pkt \<noteq> 1" "WorkaroundPESFlag s" "curpkt s = Some c"
    "WorkaroundPES s @ tsData pkt = buf" "length buf < 19"
  shows "H266Record_Process hp s pkt = Inr (s\<lparr>WorkaroundPES := buf\<rparr>)"
  using assms(1) Process_workaround_below[OF assms(2,4), of 19 hp] assms(5)
    Process_accumulate_nothing[OF assms(3), of buf]
  by (simp add: H266Record_Process_def minVvcPesHeaderLen_def)

lemma H266_header:
  assumes "PUSI pkt \<noteq> 1" "WorkaroundPESFlag s" "curpkt s = Some c"
    and "WorkaroundPES s @ tsData pkt = buf"
    and "19 \<le> length buf" "take 3 buf = startcode"
    and "hp buf = (hlen, pts, dts)" "hlen \<le> length buf"
  shows "H266Record_Process hp s pkt =
     Inr (s\<lparr>WorkaroundPES := buf,
            WorkaroundPESFlag := False,
            curpkt := Some (c\<lparr>Pts := pts, Dts := dts,
                               Size := Size c + of_nat (length (drop hlen buf)),
                               Data := Data c @ drop hlen buf\<rparr>)\<rparr>)"
proof -
  have w: "Process_workaround hp 19 s (tsData pkt) =
     Inr (s\<lparr>WorkaroundPES := buf,
            curpkt := Some (c\<lparr>Pts := pts, Dts := dts\<rparr>),
            WorkaroundPESFlag := False\<rparr>,
          drop hlen buf)"
    using assms(2-8) by (rule Process_workaround_header)
  show ?thesis
    using assms(1) by (simp add: H266Record_Process_def minVvcPesHeaderLen_def w Process_accumulate_def)
qed

lemma H266_normal:
  assumes "PUSI pkt \<noteq> 1" "\<not> WorkaroundPESFlag s" "curpkt s = Some c"
  shows "H266Record_Process hp s pkt =
     Inr (s\<lparr>curpkt := Some (c\<lparr>Size := Size c + of_nat (length (tsData pkt)),
                               Data := Data c @ tsData pkt\<rparr>)\<rparr>)"
  using assms Process_workaround_off[of s hp 19 "tsData pkt"]
  by (simp add: H266Record_Process_def Process_accumulate_def minVvcPesHeaderLen_def)

lemma Mpegh_below:
  assumes "PUSI pkt \<noteq> 1" "WorkaroundPESFlag s" "curpkt s = Some c"
    "WorkaroundPES s @ tsData pkt = buf" "length buf < 19"
  shows "MpeghAudioRecord_Process hp s pkt = Inr (s\<lparr>WorkaroundPES := buf\<rparr>)"
  using assms(1) Process_workaround_below[OF assms(2,4), of 19 hp] assms(5)
    Process_accumulate_nothing[OF assms(3), of buf]
  by (simp add: MpeghAudioRecord_Process_def minMpeghAudioPesHeaderLen_def)

lemma Mpegh_header:
  assumes "PUSI pkt \<noteq> 1" "WorkaroundPESFlag s" "curpkt s = Some c"
    and "WorkaroundPES s @ tsData pkt = buf"
    and "19 \<le> length buf" "take 3 buf = startcode"
    and "hp buf = (hlen, pts, dts)" "hlen \<le> length buf"
  shows "MpeghAudioRecord_Process hp s pkt =
     Inr (s\<lparr>WorkaroundPES := buf,
            WorkaroundPESFlag := False,
            curpkt := Some (c\<lparr>Pts := pts, Dts := dts,
                               Size := Size c + of_nat (length (drop hlen buf)),
                               Data := Data c @ drop hlen buf\<rparr>)\<rparr>)"
proof -
  have w: "Process_workaround hp 19 s (tsData pkt) =
     Inr (s\<lparr>WorkaroundPES := buf,
            curpkt := Some (c\<lparr>Pts := pts, Dts := dts\<rparr>),
            WorkaroundPESFlag := False\<rparr>,
          drop hlen buf)"
    using assms(2-8) by (rule Process_workaround_header)
  show ?thesis
    using assms(1)
    by (simp add: MpeghAudioRecord_Process_def minMpeghAudioPesHeaderLen_def w Process_accumulate_def)
qed

lemma Mpegh_normal:
  assumes "PUSI pkt \<noteq> 1" "\<not> WorkaroundPESFlag s" "curpkt s = Some c"
  shows "MpeghAudioRecord_Process hp s pkt =
     Inr (s\<lparr>curpkt := Some (c\<lparr>Size := Size c + of_nat (length (tsData pkt)),
                               Data := Data c @ tsData pkt\<rparr>)\<rparr>)"
  using assms Process_workaround_off[of s hp 19 "tsData pkt"]
  by (simp add: MpeghAudioRecord_Process_def Process_accumulate_def minMpeghAudioPesHeaderLen_def)

text \<open>
  C6, as stated, fails: the buffer is not cleared when the header has been parsed.
  A \<open>PUSI\<close> packet of ten bytes starts workaround mode; the next packet brings the
  buffer to twenty bytes, the header is parsed and the flag is cleared, but
  \<open>WorkaroundPES\<close> still holds all twenty bytes.
\<close>

theorem workaround_buffer_kept_counterexample:
  "(case H266Record_Process fixed_header_parser
           \<lparr>PcrTime = 0, Pid = 256, IFrames = [], curpkt = None, Pkts = [],
            WorkaroundPESFlag = False, WorkaroundPES = [], NalInfos = []\<rparr>
           \<lparr>tsPos = 0, PUSI = 1, tsData = [0, 0, 1, 0xE0, 0, 0, 0x80, 0x80, 5, 0x21]\<rparr> of
      Inl e \<Rightarrow> Inl e
    | Inr s1 \<Rightarrow> H266Record_Process fixed_header_parser s1
           \<lparr>tsPos = 188, PUSI = 0, tsData = [0, 1, 0, 1, 0, 0, 0, 1, 0, 0x48]\<rparr>) =
   Inr \<lparr>PcrTime = 0, Pid = 256, IFrames = [],
        curpkt = Some \<lparr>Pos = 0, Pts = 1000, Dts = 0, Pcr = 0, Size = 11,
                       Data = [0x21, 0, 1, 0, 1, 0, 0, 0, 1, 0, 0x48]\<rparr>,
        Pkts = [], WorkaroundPESFlag = False,
        WorkaroundPES = [0, 0, 1, 0xE0, 0, 0, 0x80, 0x80, 5, 0x21, 0, 1, 0, 1, 0, 0, 0, 1, 0, 0x48],
        NalInfos = []\<rparr>"
  by code_simp

text \<open>
  C6, amended. Workaround mode is the flag \<open>WorkaroundPESFlag\<close>. For a packet
  without \<open>PUSI\<close> that arrives in workaround mode, in both analyzers: while the buffer
  with the new bytes is shorter than 19 bytes the bytes are only buffered; once it
  has 19 bytes and begins with the marker, the header is parsed, the flag is cleared
  and only the bytes after the header are handed to the current packet, while the
  buffer keeps its bytes (it is emptied when workaround mode is entered the next time).
  With the flag cleared a packet without \<open>PUSI\<close> is appended to the current packet
  as usual.
\<close>

theorem workaround_mode_ends_on_header:
  fixes s s2 :: H266Record and m m2 :: MpeghAudioRecord
  assumes "PUSI pkt \<noteq> 1" "PUSI pkt2 \<noteq> 1"
    and "WorkaroundPESFlag s" "curpkt s = Some c" "WorkaroundPES s @ tsData pkt = buf"
    and "WorkaroundPESFlag m" "curpkt m = Some c'" "WorkaroundPES m @ tsData pkt = buf'"
  shows
   "(length buf < 19 \<longrightarrow> H266Record_Process hp s pkt = Inr (s\<lparr>WorkaroundPES := buf\<rparr>))
  \<and> (19 \<le> length buf \<and> take 3 buf = startcode \<and> hp buf = (hlen, pts, dts) \<and> hlen \<le> length buf \<longrightarrow>
       H266Record_Process hp s pkt =
         Inr (s\<lparr>WorkaroundPES := buf, WorkaroundPESFlag := False,
                curpkt := Some (c\<lparr>Pts := pts, Dts := dts,
                                   Size := Size c + of_nat (length (drop hlen buf)),
                                   Data := Data c @ drop hlen buf\<rparr>)\<rparr>))
  \<and> (\<not> WorkaroundPESFlag s2 \<and> curpkt s2 = Some c2 \<longrightarrow>
       H266Record_Process hp s2 pkt2 =
         Inr (s2\<lparr>curpkt := Some (c2\<lparr>Size := Size c2 + of_nat (length (tsData pkt2)),
                                     Data := Data c2 @ tsData pkt2\<rparr>)\<rparr>))
  \<and> (length buf' < 19 \<longrightarrow> MpeghAudioRecord_Process hp m pkt = Inr (m\<lparr>WorkaroundPES := buf'\<rparr>))
  \<and> (19 \<le> length buf' \<and> take 3 buf' = startcode \<and> hp buf' = (hlen', pts', dts') \<and> hlen' \<le> length buf' \<longrightarrow>
       MpeghAudioRecord_Process hp m pkt =
         Inr (m\<lparr>WorkaroundPES := buf', WorkaroundPESFlag := False,
                curpkt := Some (c'\<lparr>Pts := pts', Dts := dts',
                                    Size := Size c' + of_nat (length (drop hlen' buf')),
                                    Data := Data c' @ drop hlen' buf'\<rparr>)\<rparr>))
  \<and> (\<not> WorkaroundPESFlag m2 \<and> curpkt m2 = Some c2' \<longrightarrow>
       MpeghAudioRecord_Process hp m2 pkt2 =
         Inr (m2\<lparr>curpkt := Some (c2'\<lparr>Size := Size c2' + of_nat (length (tsData pkt2)),
                                      Data := Data c2' @ tsData pkt2\<rparr>)\<rparr>))"
proof -
  have h1: "length buf < 19 \<longrightarrow> H266Record_Process hp s pkt = Inr (s\<lparr>WorkaroundPES := buf\<rparr>)"
    using H266_below[OF assms(1,3,4,5)] by blast
  have m1: "length buf' < 19 \<longrightarrow> MpeghAudioRecord_Process hp m pkt = Inr (m\<lparr>WorkaroundPES := buf'\<rparr>)"
    using Mpegh_below[OF assms(1,6,7,8)] by blast
  have h2: "H266Record_Process hp s pkt =
         Inr (s\<lparr>WorkaroundPES := buf, WorkaroundPESFlag := False,
                curpkt := Some (c\<lparr>Pts := pts, Dts := dts,
                                   Size := Size c + of_nat (length (drop hlen buf)),
                                   Data := Data c @ drop hlen buf\<rparr>)\<rparr>)"
    if "19 \<le> length buf" "take 3 buf = startcode" "hp buf = (hlen, pts, dts)" "hlen \<le> length buf"
    by (rule H266_header) (use assms(1,3,4,5) that in simp_all)
  have h3: "H266Record_Process hp s2 pkt2 =
         Inr (s2\<lparr>curpkt := Some (c2\<lparr>Size := Size c2 + of_nat (length (tsData pkt2)),
                                     Data := Data c2 @ tsData pkt2\<rparr>)\<rparr>)"
    if "\<not> WorkaroundPESFlag s2" "curpkt s2 = Some c2"
    using H266_normal[OF assms(2) that] .
  have m2: "MpeghAudioRecord_Process hp m pkt =
         Inr (m\<lparr>WorkaroundPES := buf', WorkaroundPESFlag := False,
                curpkt := Some (c'\<lparr>Pts := pts', Dts := dts',
                                    Size := Size c' + of_nat (length (drop hlen' buf')),
                                    Data := Data c' @ drop hlen' buf'\<rparr>)\<rparr>)"
    if "19 \<le> length buf'" "take 3 buf' = startcode" "hp buf' = (hlen', pts', dts')" "hlen' \<le> length buf'"
    by (rule Mpegh_header) (use assms(1,6,7,8) that in simp_all)
  have m3: "MpeghAudioRecord_Process hp m2 pkt2 =
         Inr (m2\<lparr>curpkt := Some (c2'\<lparr>Size := Size c2' + of_nat (length (tsData pkt2)),
                                      Data := Data c2' @ tsData pkt2\<rparr>)\<rparr>)"
    if "\<not> WorkaroundPESFlag m2" "curpkt m2 = Some c2'"
    using Mpegh_normal[OF assms(2) that] .
  show ?thesis
    using h1 h2 h3 m1 m2 m3 by blast
qed


theorem workaround_mode_ends_on_header_witness:
  "H266Record_Process fixed_header_parser
       \<lparr>PcrTime = 0, Pid = 256, IFrames = [],
          curpkt = Some \<lparr>Pos = 0, Pts = 0, Dts = 0, Pcr = 0, Size = 0, Data = []\<rparr>,
          Pkts = [], WorkaroundPESFlag = True,
          WorkaroundPES = [0, 0, 1, 0xE0, 0, 0, 0x80, 0x80, 5, 0x21], NalInfos = []\<rparr>
       \<lparr>tsPos = 188, PUSI = 0, tsData = [0, 1, 0, 1, 0, 0, 0, 1, 0, 0x48]\<rparr> =
     Inr \<lparr>PcrTime = 0, Pid = 256, IFrames = [],
          curpkt = Some \<lparr>Pos = 0, Pts = 1000, Dts = 0, Pcr = 0, Size = 11,
                         Data = [0x21, 0, 1, 0, 1, 0, 0, 0, 1, 0, 0x48]\<rparr>,
          Pkts = [], WorkaroundPESFlag = False,
          WorkaroundPES = [0, 0, 1, 0xE0, 0, 0, 0x80, 0x80, 5, 0x21, 0, 1, 0, 1, 0, 0, 0, 1, 0, 0x48],
          NalInfos = []\<rparr>
   \<and> MpeghAudioRecord_Process fixed_header_parser
       \<lparr>PcrTime = 0, Pid = 257, IFrames = [],
          curpkt = Some \<lparr>Pos = 0, Pts = 0, Dts = 0, Pcr = 0, Size = 0, Data = []\<rparr>,
          Pkts = [], WorkaroundPESFlag = True,
          WorkaroundPES = [0, 0, 1, 0xE0, 0, 0, 0x80, 0x80, 5, 0x21],
          MhasPackets = [], RapFrames = [], RapLog = None\<rparr>
       \<lparr>tsPos = 188, PUSI = 0, tsData = [0, 1, 0, 1, 0, 0, 0, 1, 0, 0x48]\<rparr> =
     Inr \<lparr>PcrTime = 0, Pid = 257, IFrames = [],
          curpkt = Some \<lparr>Pos = 0, Pts = 1000, Dts = 0, Pcr = 0, Size = 11,
                         Data = [0x21, 0, 1, 0, 1, 0, 0, 0, 1, 0, 0x48]\<rparr>,
          Pkts = [], WorkaroundPESFlag = False,
          WorkaroundPES = [0, 0, 1, 0xE0, 0, 0, 0x80, 0x80, 5, 0x21, 0, 1, 0, 1, 0, 0, 0, 1, 0, 0x48],
          MhasPackets = [], RapFrames = [], RapLog = None\<rparr>"
proof -
  have p: "PUSI \<lparr>tsPos = 188, PUSI = 0, tsData = [0, 1, 0, 1, 0, 0, 0, 1, 0, 0x48]\<rparr> \<noteq> 1"
    by simp
  have sf: "WorkaroundPESFlag \<lparr>PcrTime = 0, Pid = 256, IFrames = [],
          curpkt = Some \<lparr>Pos = 0, Pts = 0, Dts = 0, Pcr = 0, Size = 0, Data = []\<rparr>,
          Pkts = [], WorkaroundPESFlag = True,
          WorkaroundPES = [0, 0, 1, 0xE0, 0, 0, 0x80, 0x80, 5, 0x21], NalInfos = []\<rparr>"
    by simp
  have sc: "curpkt \<lparr>PcrTime = 0, Pid = 256, IFrames = [],
          curpkt = Some \<lparr>Pos = 0, Pts = 0, Dts = 0, Pcr = 0, Size = 0, Data = []\<rparr>,
          Pkts = [], WorkaroundPESFlag = True,
          WorkaroundPES = [0, 0, 1, 0xE0, 0, 0, 0x80, 0x80, 5, 0x21], NalInfos = []\<rparr> = Some \<lparr>Pos = 0, Pts = 0, Dts = 0, Pcr = 0, Size = 0, Data = []\<rparr>"
    by simp
  have sb: "WorkaroundPES \<lparr>PcrTime = 0, Pid = 256, IFrames = [],
          curpkt = Some \<lparr>Pos = 0, Pts = 0, Dts = 0, Pcr = 0, Size = 0, Data = []\<rparr>,
          Pkts = [], WorkaroundPESFlag = True,
          WorkaroundPES = [0, 0, 1, 0xE0, 0, 0, 0x80, 0x80, 5, 0x21], NalInfos = []\<rparr> @ tsData \<lparr>tsPos = 188, PUSI = 0, tsData = [0, 1, 0, 1, 0, 0, 0, 1, 0, 0x48]\<rparr> = [0, 0, 1, 0xE0, 0, 0, 0x80, 0x80, 5, 0x21, 0, 1, 0, 1, 0, 0, 0, 1, 0, 0x48]"
    by simp
  have mf: "WorkaroundPESFlag \<lparr>PcrTime = 0, Pid = 257, IFrames = [],
          curpkt = Some \<lparr>Pos = 0, Pts = 0, Dts = 0, Pcr = 0, Size = 0, Data = []\<rparr>,
          Pkts = [], WorkaroundPESFlag = True,
          WorkaroundPES = [0, 0, 1, 0xE0, 0, 0, 0x80, 0x80, 5, 0x21],
          MhasPackets = [], RapFrames = [], RapLog = None\<rparr>"
    by simp
  have mc: "curpkt \<lparr>PcrTime = 0, Pid = 257, IFrames = [],
          curpkt = Some \<lparr>Pos = 0, Pts = 0, Dts = 0, Pcr = 0, Size = 0, Data = []\<rparr>,
          Pkts = [], WorkaroundPESFlag = True,
          WorkaroundPES = [0, 0, 1, 0xE0, 0, 0, 0x80, 0x80, 5, 0x21],
          MhasPackets = [], RapFrames = [], RapLog = None\<rparr> = Some \<lparr>Pos = 0, Pts = 0, Dts = 0, Pcr = 0, Size = 0, Data = []\<rparr>"
    by simp
  have mb: "WorkaroundPES \<lparr>PcrTime = 0, Pid = 257, IFrames = [],
          curpkt = Some \<lparr>Pos = 0, Pts = 0, Dts = 0, Pcr = 0, Size = 0, Data = []\<rparr>,
          Pkts = [], WorkaroundPESFlag = True,
          WorkaroundPES = [0, 0, 1, 0xE0, 0, 0, 0x80, 0x80, 5, 0x21],
          MhasPackets = [], RapFrames = [], RapLog = None\<rparr> @ tsData \<lparr>tsPos = 188, PUSI = 0, tsData = [0, 1, 0, 1, 0, 0, 0, 1, 0, 0x48]\<rparr> = [0, 0, 1, 0xE0, 0, 0, 0x80, 0x80, 5, 0x21, 0, 1, 0, 1, 0, 0, 0, 1, 0, 0x48]"
    by simp
  have c: "19 \<le> length ([0, 0, 1, 0xE0, 0, 0, 0x80, 0x80, 5, 0x21, 0, 1, 0, 1, 0, 0, 0, 1, 0, 0x48] :: byte list)"
          "take 3 ([0, 0, 1, 0xE0, 0, 0, 0x80, 0x80, 5, 0x21, 0, 1, 0, 1, 0, 0, 0, 1, 0, 0x48] :: byte list) = startcode"
          "fixed_header_parser [0, 0, 1, 0xE0, 0, 0, 0x80, 0x80, 5, 0x21, 0, 1, 0, 1, 0, 0, 0, 1, 0, 0x48] = (9, 1000, 0)"
          "9 \<le> length ([0, 0, 1, 0xE0, 0, 0, 0x80, 0x80, 5, 0x21, 0, 1, 0, 1, 0, 0, 0, 1, 0, 0x48] :: byte list)"
    by (simp_all add: startcode_def fixed_header_parser_def)
  note t = workaround_mode_ends_on_header[OF p p sf sc sb mf mc mb,
      where hp = fixed_header_parser and hlen = 9 and pts = 1000 and dts = 0
        and hlen' = 9 and pts' = 1000 and dts' = 0]
  have h: "H266Record_Process fixed_header_parser
       \<lparr>PcrTime = 0, Pid = 256, IFrames = [],
          curpkt = Some \<lparr>Pos = 0, Pts = 0, Dts = 0, Pcr = 0, Size = 0, Data = []\<rparr>,
          Pkts = [], WorkaroundPESFlag = True,
          WorkaroundPES = [0, 0, 1, 0xE0, 0, 0, 0x80, 0x80, 5, 0x21], NalInfos = []\<rparr>
       \<lparr>tsPos = 188, PUSI = 0, tsData = [0, 1, 0, 1, 0, 0, 0, 1, 0, 0x48]\<rparr> =
     Inr (\<lparr>PcrTime = 0, Pid = 256, IFrames = [],
          curpkt = Some \<lparr>Pos = 0, Pts = 0, Dts = 0, Pcr = 0, Size = 0, Data = []\<rparr>,
          Pkts = [], WorkaroundPESFlag = True,
          WorkaroundPES = [0, 0, 1, 0xE0, 0, 0, 0x80, 0x80, 5, 0x21], NalInfos = []\<rparr>
          \<lparr>WorkaroundPES := [0, 0, 1, 0xE0, 0, 0, 0x80, 0x80, 5, 0x21, 0, 1, 0, 1, 0, 0, 0, 1, 0, 0x48], WorkaroundPESFlag := False,
           curpkt := Some (\<lparr>Pos = 0, Pts = 0, Dts = 0, Pcr = 0, Size = 0, Data = []\<rparr>
              \<lparr>Pts := 1000, Dts := 0,
               Size := Size \<lparr>Pos = 0, Pts = 0, Dts = 0, Pcr = 0, Size = 0, Data = []\<rparr> + of_nat (length (drop 9 ([0, 0, 1, 0xE0, 0, 0, 0x80, 0x80, 5, 0x21, 0, 1, 0, 1, 0, 0, 0, 1, 0, 0x48] :: byte list))),
               Data := Data \<lparr>Pos = 0, Pts = 0, Dts = 0, Pcr = 0, Size = 0, Data = []\<rparr> @ drop 9 [0, 0, 1, 0xE0, 0, 0, 0x80, 0x80, 5, 0x21, 0, 1, 0, 1, 0, 0, 0, 1, 0, 0x48]\<rparr>)\<rparr>)"
    using t c by blast
  have m: "MpeghAudioRecord_Process fixed_header_parser
       \<lparr>PcrTime = 0, Pid = 257, IFrames = [],
          curpkt = Some \<lparr>Pos = 0, Pts = 0, Dts = 0, Pcr = 0, Size = 0, Data = []\<rparr>,
          Pkts = [], WorkaroundPESFlag = True,
          WorkaroundPES = [0, 0, 1, 0xE0, 0, 0, 0x80, 0x80, 5, 0x21],
          MhasPackets = [], RapFrames = [], RapLog = None\<rparr>
       \<lparr>tsPos = 188, PUSI = 0, tsData = [0, 1, 0, 1, 0, 0, 0, 1, 0, 0x48]\<rparr> =
     Inr (\<lparr>PcrTime = 0, Pid = 257, IFrames = [],
          curpkt = Some \<lparr>Pos = 0, Pts = 0, Dts = 0, Pcr = 0, Size = 0, Data = []\<rparr>,
          Pkts = [], WorkaroundPESFlag = True,
          WorkaroundPES = [0, 0, 1, 0xE0, 0, 0, 0x80, 0x80, 5, 0x21],
          MhasPackets = [], RapFrames = [], RapLog = None\<rparr>
          \<lparr>WorkaroundPES := [0, 0, 1, 0xE0, 0, 0, 0x80, 0x80, 5, 0x21, 0, 1, 0, 1, 0, 0, 0, 1, 0, 0x48], WorkaroundPESFlag := False,
           curpkt := Some (\<lparr>Pos = 0, Pts = 0, Dts = 0, Pcr = 0, Size = 0, Data = []\<rparr>
              \<lparr>Pts := 1000, Dts := 0,
               Size := Size \<lparr>Pos = 0, Pts = 0, Dts = 0, Pcr = 0, Size = 0, Data = []\<rparr> + of_nat (length (drop 9 ([0, 0, 1, 0xE0, 0, 0, 0x80, 0x80, 5, 0x21, 0, 1, 0, 1, 0, 0, 0, 1, 0, 0x48] :: byte list))),
               Data := Data \<lparr>Pos = 0, Pts = 0, Dts = 0, Pcr = 0, Size = 0, Data = []\<rparr> @ drop 9 [0, 0, 1, 0xE0, 0, 0, 0x80, 0x80, 5, 0x21, 0, 1, 0, 1, 0, 0, 0, 1, 0, 0x48]\<rparr>)\<rparr>)"
    using t c by blast
  show ?thesis
    unfolding h m by simp
qed

end
